theory Spec2Isabelle
  imports Main "HOL-Library.Word" "HOL-Library.AList"
begin

section \<open>Values shared by the serializer and the manifest coder\<close>

type_synonym byte = "8 word"

text \<open>
  Errors as values.  \<open>ErrorUtils.throwError (message, code, params)\<close> raises a
  \<open>CustomError\<close>; the only parameter the sources pass is \<open>originalError\<close>.  A
  \<open>TypeError\<close> is what the JavaScript runtime raises when a property of
  \<open>undefined\<close> or \<open>null\<close> is read or a non-function is called.  \<open>Error\<close> is a
  plain \<open>new Error (message)\<close>.
\<close>

datatype ErrorCode =
  UNKNOWN_ERROR | MISSING_ARGUMENT | INVALID_ARGUMENT | UNSUPPORTED_OPERATION | OTHER_CODE string

datatype error =
  TypeError string
  | Error string
  | CustomError string ErrorCode "error option"

definition throwError :: "string \<Rightarrow> ErrorCode \<Rightarrow> error option \<Rightarrow> error + 'a" where
  "throwError message code originalError = Inl (CustomError message code originalError)"

text \<open>Sequencing of computations that may throw.\<close>

definition bindE :: "error + 'a \<Rightarrow> ('a \<Rightarrow> error + 'b) \<Rightarrow> error + 'b" where
  "bindE m f = (case m of Inl e \<Rightarrow> Inl e | Inr x \<Rightarrow> f x)"

text \<open>\<open>xs.forEach (x => ...)\<close> over a mutable accumulator, stopping at the first throw.\<close>

fun forEach :: "('s \<Rightarrow> 'a \<Rightarrow> error + 's) \<Rightarrow> 'a list \<Rightarrow> 's \<Rightarrow> error + 's" where
  "forEach f [] s = Inr s"
| "forEach f (x # xs) s = bindE (f s x) (forEach f xs)"

text \<open>\<open>xs.map (x => ...)\<close> with a callback that may throw.\<close>

fun mapE :: "('a \<Rightarrow> error + 'b) \<Rightarrow> 'a list \<Rightarrow> error + 'b list" where
  "mapE f [] = Inr []"
| "mapE f (x # xs) = bindE (f x) (\<lambda>y. bindE (mapE f xs) (\<lambda>ys. Inr (y # ys)))"

text \<open>
  A JavaScript \<open>Map\<close> with string keys, as an association list in insertion order:
  \<open>set\<close> on a key already present replaces the value where it stands, \<open>set\<close> on a
  new key appends the entry.
\<close>

definition Map_get :: "('k \<times> 'v) list \<Rightarrow> 'k \<Rightarrow> 'v option" where
  "Map_get m k = map_of m k"

definition Map_has :: "('k \<times> 'v) list \<Rightarrow> 'k \<Rightarrow> bool" where
  "Map_has m k = (map_of m k \<noteq> None)"

definition Map_set :: "('k \<times> 'v) list \<Rightarrow> 'k \<Rightarrow> 'v \<Rightarrow> ('k \<times> 'v) list" where
  "Map_set m k v = AList.update k v m"

text \<open>
  Modelled from the spec: \<open>trimHexPrefix\<close> of js-moi-utils is not among the
  sources.  The spec calls its result the normalized, prefix-stripped form: a leading
  "0x" hex marker is removed, any other string is returned as it is.
\<close>

definition trimHexPrefix :: "string \<Rightarrow> string" where
  "trimHexPrefix s = (if take 2 s = ''0x'' then drop 2 s else s)"

text \<open>
  \<open>hexToBytes\<close> of js-moi-utils is not among the sources either.  Both modules
  import it, so it is a parameter of the whole model; it may throw.
\<close>

record hex_deps =
  hexToBytes :: "string \<Rightarrow> error + byte list"

section \<open>The interaction serializer\<close>

text \<open>A JavaScript \<open>number\<close> holding an integer, or a \<open>bigint\<close>.  Amounts are
  integers; the rounding of a \<open>number\<close> beyond 53 bits is not modelled.\<close>

datatype numeric = Number int | BigInt int

fun isBigInt :: "numeric \<Rightarrow> bool" where
  "isBigInt (BigInt n) = True"
| "isBigInt (Number n) = False"

fun numericValue :: "numeric \<Rightarrow> int" where
  "numericValue (BigInt n) = n"
| "numericValue (Number n) = n"

text \<open>The transaction types the serializer names; \<open>OTHER_TYPE\<close> stands for every
  other value of the \<open>type\<close> field.\<close>

datatype TxType =
  ASSET_TRANSFER | ASSET_CREATE | ASSET_MINT | ASSET_BURN
  | LOGIC_DEPLOY | LOGIC_INVOKE | LOGIC_ENLIST | OTHER_TYPE nat

datatype LockType = MUTATE_LOCK | READ_LOCK | NO_LOCK

text \<open>The payload fields the serializer reads; the rest of a payload only reaches
  \<open>serializePayload\<close>.\<close>

record IxPayload =
  asset_id :: string
  amount :: numeric
  beneficiary :: string
  logic_id :: string

record IxTransaction =
  tx_type :: TxType
  payload :: "IxPayload option"

record IxAssetFund =
  fund_asset_id :: string
  fund_amount :: numeric

record IxParticipant =
  address :: string
  lock_type :: LockType

record InteractionObject =
  sender :: string
  payer :: "string option"
  nonce :: numeric
  fuel_price :: numeric
  fuel_limit :: numeric
  funds :: "IxAssetFund list option"
  participants :: "IxParticipant list option"
  transactions :: "IxTransaction list"

record ProcessedIxParticipant =
  p_address :: "byte list"
  p_lock_type :: LockType

record ProcessedIxTransaction =
  p_tx_type :: TxType
  p_payload :: "byte list"

record ProcessedIxObject =
  p_sender :: "byte list"
  p_payer :: "byte list"
  p_nonce :: numeric
  p_fuel_price :: numeric
  p_fuel_limit :: numeric
  p_funds :: "IxAssetFund list"
  p_transactions :: "ProcessedIxTransaction list"
  p_participants :: "ProcessedIxParticipant list"

text \<open>
  What else the serializer imports and the sources do not contain: \<open>ZERO_ADDRESS\<close>
  (js-moi-constants), \<open>serializePayload\<close> (js-moi-providers) and the POLO writer
  applied to a processed interaction under \<open>ixObjectSchema\<close> (js-polo).  They are
  parameters of the model; each function may throw.
\<close>

record serializer_deps = hex_deps +
  ZERO_ADDRESS :: string
  serializePayload :: "TxType \<Rightarrow> IxPayload \<Rightarrow> error + byte list"
  polorize :: "ProcessedIxObject \<Rightarrow> error + byte list"

subsection \<open>processFunds\<close>

text \<open>Lines 20 to 24: the sum is a \<open>bigint\<close> as soon as one operand is.\<close>

definition addAmount :: "numeric \<Rightarrow> numeric \<Rightarrow> numeric" where
  "addAmount a b =
     (if isBigInt a \<or> isBigInt b
      then BigInt (numericValue a + numericValue b)
      else Number (numericValue a + numericValue b))"

text \<open>The body of the first \<open>forEach\<close>: the accumulator is read under the asset id
  as the payload has it and written under the trimmed asset id.\<close>

definition fundsOfTransaction ::
  "(string \<times> numeric) list \<Rightarrow> IxTransaction \<Rightarrow> error + (string \<times> numeric) list" where
  "fundsOfTransaction assetFunds transaction =
     (if tx_type transaction = ASSET_TRANSFER \<or> tx_type transaction = ASSET_BURN
      then (case payload transaction of
              None \<Rightarrow> Inl (TypeError ''Cannot read properties of undefined (reading asset_id)'')
            | Some p \<Rightarrow>
                (let amount0 = (case Map_get assetFunds (asset_id p) of
                                  None \<Rightarrow> Number 0 | Some a \<Rightarrow> a)
                 in Inr (Map_set assetFunds (trimHexPrefix (asset_id p))
                           (addAmount (amount p) amount0))))
      else Inr assetFunds)"

text \<open>The body of the second \<open>forEach\<close>, over the supplied funds.\<close>

definition addAssetFund :: "(string \<times> numeric) list \<Rightarrow> IxAssetFund \<Rightarrow> (string \<times> numeric) list" where
  "addAssetFund assetFunds assetFund =
     (if \<not> Map_has assetFunds (trimHexPrefix (fund_asset_id assetFund))
      then Map_set assetFunds (trimHexPrefix (fund_asset_id assetFund)) (fund_amount assetFund)
      else assetFunds)"

definition transactionFunds :: "IxTransaction list \<Rightarrow> error + (string \<times> numeric) list" where
  "transactionFunds txs = forEach fundsOfTransaction txs []"

definition processFunds :: "InteractionObject \<Rightarrow> error + IxAssetFund list" where
  "processFunds ixObject =
     bindE (transactionFunds (transactions ixObject)) (\<lambda>assetFunds.
       let assetFunds' = (case funds ixObject of
                            None \<Rightarrow> assetFunds
                          | Some fs \<Rightarrow> foldl addAssetFund assetFunds fs)
       in Inr (map (\<lambda>(k, v). \<lparr>fund_asset_id = k, fund_amount = v\<rparr>) assetFunds'))"

subsection \<open>processParticipants\<close>

definition setParticipant ::
  "serializer_deps \<Rightarrow> (string \<times> ProcessedIxParticipant) list \<Rightarrow> string \<Rightarrow> string \<Rightarrow> LockType
     \<Rightarrow> error + (string \<times> ProcessedIxParticipant) list" where
  "setParticipant E ps key addr lock =
     bindE (hexToBytes E addr) (\<lambda>b. Inr (Map_set ps key \<lparr>p_address = b, p_lock_type = lock\<rparr>))"

text \<open>The three payload shapes of lines 65 to 94: the owner of an asset (the asset id
  without its first 8 characters), the beneficiary of a transfer, the owner of a
  logic (the logic id without its first 6 characters).\<close>

definition assetSupplyParticipant ::
  "serializer_deps \<Rightarrow> (string \<times> ProcessedIxParticipant) list \<Rightarrow> IxTransaction
     \<Rightarrow> error + (string \<times> ProcessedIxParticipant) list" where
  "assetSupplyParticipant E ps transaction =
     (case payload transaction of
        None \<Rightarrow> Inl (TypeError ''Cannot read properties of undefined (reading asset_id)'')
      | Some p \<Rightarrow> (let a = drop 8 (trimHexPrefix (asset_id p))
                   in setParticipant E ps a a MUTATE_LOCK))"

definition assetActionParticipant ::
  "serializer_deps \<Rightarrow> (string \<times> ProcessedIxParticipant) list \<Rightarrow> IxTransaction
     \<Rightarrow> error + (string \<times> ProcessedIxParticipant) list" where
  "assetActionParticipant E ps transaction =
     (case payload transaction of
        None \<Rightarrow> Inl (TypeError ''Cannot read properties of undefined (reading beneficiary)'')
      | Some p \<Rightarrow> setParticipant E ps (beneficiary p) (beneficiary p) MUTATE_LOCK)"

definition logicParticipant ::
  "serializer_deps \<Rightarrow> (string \<times> ProcessedIxParticipant) list \<Rightarrow> IxTransaction
     \<Rightarrow> error + (string \<times> ProcessedIxParticipant) list" where
  "logicParticipant E ps transaction =
     (case payload transaction of
        None \<Rightarrow> Inl (TypeError ''Cannot read properties of undefined (reading logic_id)'')
      | Some p \<Rightarrow> (let a = drop 6 (trimHexPrefix (logic_id p))
                   in setParticipant E ps a a MUTATE_LOCK))"

text \<open>The body of the \<open>forEach\<close> over the transactions (lines 61 to 98).\<close>

definition participantOfTransaction ::
  "serializer_deps \<Rightarrow> (string \<times> ProcessedIxParticipant) list \<Rightarrow> IxTransaction
     \<Rightarrow> error + (string \<times> ProcessedIxParticipant) list" where
  "participantOfTransaction E ps transaction =
     (case tx_type transaction of
        ASSET_CREATE \<Rightarrow> Inr ps
      | ASSET_MINT \<Rightarrow> assetSupplyParticipant E ps transaction
      | ASSET_BURN \<Rightarrow> assetSupplyParticipant E ps transaction
      | ASSET_TRANSFER \<Rightarrow> assetActionParticipant E ps transaction
      | LOGIC_DEPLOY \<Rightarrow> Inr ps
      | LOGIC_ENLIST \<Rightarrow> logicParticipant E ps transaction
      | LOGIC_INVOKE \<Rightarrow> logicParticipant E ps transaction
      | OTHER_TYPE n \<Rightarrow> throwError ''Unsupported Ix type'' INVALID_ARGUMENT None)"

text \<open>The body of the \<open>forEach\<close> over the supplied participants (lines 101 to 109).\<close>

definition addParticipant ::
  "serializer_deps \<Rightarrow> (string \<times> ProcessedIxParticipant) list \<Rightarrow> IxParticipant
     \<Rightarrow> error + (string \<times> ProcessedIxParticipant) list" where
  "addParticipant E ps participant =
     (let a = trimHexPrefix (address participant)
      in if \<not> Map_has ps a
         then setParticipant E ps a (address participant) (lock_type participant)
         else Inr ps)"

definition processParticipants ::
  "serializer_deps \<Rightarrow> InteractionObject \<Rightarrow> error + ProcessedIxParticipant list" where
  "processParticipants E ixObject =
     bindE (setParticipant E [] (trimHexPrefix (sender ixObject)) (sender ixObject) MUTATE_LOCK)
       (\<lambda>ps0.
     bindE (case payer ixObject of
              None \<Rightarrow> Inr ps0
            | Some p \<Rightarrow> setParticipant E ps0 (trimHexPrefix p) p MUTATE_LOCK) (\<lambda>ps1.
     bindE (forEach (participantOfTransaction E) (transactions ixObject) ps1) (\<lambda>ps2.
     bindE (case participants ixObject of
              None \<Rightarrow> Inr ps2
            | Some supplied \<Rightarrow> forEach (addParticipant E) supplied ps2) (\<lambda>ps3.
     Inr (map snd ps3)))))"

subsection \<open>processTransactions, processIxObject, serializeIxObject\<close>

definition processTransaction ::
  "serializer_deps \<Rightarrow> IxTransaction \<Rightarrow> error + ProcessedIxTransaction" where
  "processTransaction E transaction =
     (case payload transaction of
        None \<Rightarrow> throwError ''Payload is missing!'' MISSING_ARGUMENT None
      | Some p \<Rightarrow>
          bindE (serializePayload E (tx_type transaction) p) (\<lambda>b.
            Inr \<lparr>p_tx_type = tx_type transaction, p_payload = b\<rparr>))"

definition processTransactions ::
  "serializer_deps \<Rightarrow> IxTransaction list \<Rightarrow> error + ProcessedIxTransaction list" where
  "processTransactions E txs = mapE (processTransaction E) txs"

text \<open>\<open>try { ... } catch (err) { throwError (message, UNKNOWN_ERROR, { originalError: err }) }\<close>\<close>

definition tryCatch :: "string \<Rightarrow> error + 'a \<Rightarrow> error + 'a" where
  "tryCatch message m =
     (case m of Inl err \<Rightarrow> throwError message UNKNOWN_ERROR (Some err) | Inr x \<Rightarrow> Inr x)"

text \<open>The object literal is evaluated field by field, in the order it is written.\<close>

definition processIxObject :: "serializer_deps \<Rightarrow> InteractionObject \<Rightarrow> error + ProcessedIxObject" where
  "processIxObject E ixObject =
     tryCatch ''Failed to process interaction object''
       (bindE (hexToBytes E (sender ixObject)) (\<lambda>s.
        bindE (hexToBytes E (ZERO_ADDRESS E)) (\<lambda>p.
        bindE (processFunds ixObject) (\<lambda>fs.
        bindE (processTransactions E (transactions ixObject)) (\<lambda>txs.
        bindE (processParticipants E ixObject) (\<lambda>ps.
          Inr \<lparr>p_sender = s, p_payer = p, p_nonce = nonce ixObject,
               p_fuel_price = fuel_price ixObject, p_fuel_limit = fuel_limit ixObject,
               p_funds = fs, p_transactions = txs, p_participants = ps\<rparr>))))))"

definition serializeIxObject :: "serializer_deps \<Rightarrow> InteractionObject \<Rightarrow> error + byte list" where
  "serializeIxObject E ixObject =
     tryCatch ''Failed to serialize interaction object''
       (bindE (processIxObject E ixObject) (polorize E))"

section \<open>The manifest coder\<close>

text \<open>
  JavaScript values as far as the coder handles them.  A \<open>Uint8Array\<close> is
  \<open>JBytes\<close>, a \<open>Map\<close> is \<open>JMap\<close> with its entries in insertion order, a plain
  object is \<open>JObject\<close> with its own keys in the order \<open>Object.keys\<close> lists them.
\<close>

datatype val =
  JUndefined | JNull | JBool bool | JNumber int | JBigInt int | JString string
  | JBytes "byte list" | JArray "val list" | JMap "(val \<times> val) list"
  | JObject "(string \<times> val) list"

text \<open>
  A schema node is an object with a \<open>kind\<close> and, for the composite kinds, a
  \<open>fields\<close> object: \<open>values\<close> for an array, \<open>keys\<close> and \<open>values\<close> for a map,
  one entry per label for a struct.  The nodes form a tree; the in-place writes of
  \<open>parseCalldata\<close> are modelled by returning the node as it stands after the call.
\<close>

datatype schema = Schema (kind: string) (schema_fields: "(string \<times> schema) list option")

record LogicField =
  label :: string
  ftype :: string
  slot :: nat

record Routine =
  name :: string
  accepts :: "LogicField list option"
  returns :: "LogicField list option"

record EventElement =
  event_fields :: "LogicField list"

text \<open>The first parameter of the public methods: \<open>typeof routine === "string"\<close> or not.\<close>

datatype RoutineOrName = ByName string | ByValue Routine

text \<open>What \<open>documentEncode\<close> returns: \<open>bytes ()\<close> and \<open>getData ()\<close>.\<close>

record document =
  doc_bytes :: "byte list"
  doc_data :: val

text \<open>
  What else the coder imports and the sources do not contain: \<open>bytesToHex\<close> and
  \<open>builtInLogEventSchema\<close> (js-moi-utils), \<open>Schema.parseFields\<close> and the
  \<open>ElementDescriptor\<close> lookups (sibling modules of the coder), \<open>documentEncode\<close>
  and \<open>Depolorizer.depolorize\<close> (js-polo).  They are parameters of the model.
  \<open>getEventElement\<close> may throw or return \<open>null\<close>; \<open>deepCopy\<close> is the identity on
  a tree of immutable values.  \<open>toUint8\<close> is the conversion the runtime applies to a
  value stored into a \<open>Uint8Array\<close>; it throws on a \<open>bigint\<close>.
\<close>

record coder_deps = hex_deps +
  bytesToHex :: "byte list \<Rightarrow> string"
  parseFields :: "LogicField list \<Rightarrow> error + schema"
  documentEncode :: "val \<Rightarrow> schema \<Rightarrow> error + document"
  depolorize :: "byte list \<Rightarrow> schema \<Rightarrow> error + val"
  builtInLogEventSchema :: schema
  getRoutineElement :: "string \<Rightarrow> error + Routine"
  getEventElement :: "string \<Rightarrow> error + EventElement option"
  toUint8 :: "val \<Rightarrow> error + byte"

subsection \<open>What the runtime makes of a value\<close>

text \<open>The decimal text of an index, as \<open>Object.keys\<close> lists the indices of an array.\<close>

fun decimal :: "nat \<Rightarrow> string" where
  "decimal n =
     (if n < 10 then [char_of (48 + n)] else decimal (n div 10) @ [char_of (48 + n mod 10)])"

definition byteNumber :: "byte \<Rightarrow> val" where
  "byteNumber b = JNumber (uint b)"

definition numberByte :: "val \<Rightarrow> byte" where
  "numberByte v = (case v of JNumber n \<Rightarrow> of_int n | _ \<Rightarrow> 0)"

text \<open>\<open>arg.map\<close> exists on an array and on a \<open>Uint8Array\<close>: the elements the callback
  is given, or nothing when \<open>arg.map\<close> is not a function.\<close>

definition mapElements :: "val \<Rightarrow> val list option" where
  "mapElements arg =
     (case arg of
        JArray xs \<Rightarrow> Some xs
      | JBytes bs \<Rightarrow> Some (map byteNumber bs)
      | _ \<Rightarrow> None)"

text \<open>\<open>Array.from (arg.entries ())\<close>: the entries of a \<open>Map\<close>, the index and element pairs
  of an array or a \<open>Uint8Array\<close>, or nothing when \<open>arg.entries\<close> is not a function.\<close>

definition entriesOf :: "val \<Rightarrow> (val \<times> val) list option" where
  "entriesOf arg =
     (case arg of
        JMap es \<Rightarrow> Some es
      | JArray xs \<Rightarrow> Some (zip (map (\<lambda>i. JNumber (int i)) [0..<length xs]) xs)
      | JBytes bs \<Rightarrow> Some (zip (map (\<lambda>i. JNumber (int i)) [0..<length bs]) (map byteNumber bs))
      | _ \<Rightarrow> None)"

text \<open>\<open>Object.keys (arg)\<close> with the value under each key: the own properties of a plain
  object, the indices of an array, a \<open>Uint8Array\<close> or a string, no key at all for a
  boolean, a number, a \<open>bigint\<close> or a \<open>Map\<close>, and nothing (a \<open>TypeError\<close>) for \<open>null\<close>
  and \<open>undefined\<close>.\<close>

definition ownEntries :: "val \<Rightarrow> (string \<times> val) list option" where
  "ownEntries arg =
     (case arg of
        JObject es \<Rightarrow> Some es
      | JArray xs \<Rightarrow> Some (zip (map decimal [0..<length xs]) xs)
      | JBytes bs \<Rightarrow> Some (zip (map decimal [0..<length bs]) (map byteNumber bs))
      | JString s \<Rightarrow> Some (zip (map decimal [0..<length s]) (map (\<lambda>c. JString [c]) s))
      | JUndefined \<Rightarrow> None
      | JNull \<Rightarrow> None
      | _ \<Rightarrow> Some [])"

text \<open>The first character of a string that has one.  The modules are strict code: a
  store into an index of a string throws, so of a string under a struct node only the
  first index is ever processed.\<close>

definition stringHead :: "val \<Rightarrow> char option" where
  "stringHead arg = (case arg of JString (c # cs) \<Rightarrow> Some c | _ \<Rightarrow> None)"

text \<open>The value after the assignments \<open>arg[key] = ...\<close> of \<open>parseStruct\<close>: a plain
  object and an array hold what was assigned, a \<open>Uint8Array\<close> holds it converted, a
  value without keys is as it was.\<close>

definition withEntries :: "val \<Rightarrow> (string \<times> val) list \<Rightarrow> val" where
  "withEntries arg es =
     (case arg of
        JObject old \<Rightarrow> JObject es
      | JArray xs \<Rightarrow> JArray (map snd es)
      | JBytes bs \<Rightarrow> JBytes (map (numberByte \<circ> snd) es)
      | _ \<Rightarrow> arg)"

text \<open>Whether the value is a \<open>Uint8Array\<close>, and what a store into one keeps.\<close>

definition isTyped :: "val \<Rightarrow> bool" where
  "isTyped arg = (case arg of JBytes bs \<Rightarrow> True | _ \<Rightarrow> False)"

definition stored :: "coder_deps \<Rightarrow> bool \<Rightarrow> val \<Rightarrow> error + val" where
  "stored E typed v = (if typed then bindE (toUint8 E v) (\<lambda>b. Inr (byteNumber b)) else Inr v)"

text \<open>The result of \<open>arg.map\<close>: an array of an array, a \<open>Uint8Array\<close> of a
  \<open>Uint8Array\<close>.\<close>

definition mapResult :: "val \<Rightarrow> val list \<Rightarrow> val" where
  "mapResult arg ys = (if isTyped arg then JBytes (map numberByte ys) else JArray ys)"

text \<open>A measure of values under which every value the helpers above hand to a
  callback is smaller than the value they took it from.\<close>

fun vsize :: "val \<Rightarrow> nat" where
  "vsize (JArray xs) = Suc (sum_list (map (\<lambda>x. vsize x + 2) xs))"
| "vsize (JMap es) = Suc (sum_list (map (\<lambda>e. vsize (fst e) + vsize (snd e) + 1) es))"
| "vsize (JObject es) = Suc (sum_list (map (\<lambda>e. vsize (snd e) + 1) es))"
| "vsize (JBytes bs) = Suc (3 * length bs)"
| "vsize (JString s) = Suc (2 * length s)"
| "vsize v = 1"

subsection \<open>parseCalldata\<close>

definition parsableKinds :: "string list" where
  "parsableKinds = [''bytes'', ''array'', ''map'', ''struct'']"

text \<open>
  Modelled from the spec: \<open>trimHexPrefix\<close> is handed the argument under a \<open>string\<close>
  node whatever its type.  The spec has it strip a leading format prefix; a value that
  is no string carries none and is returned as it is.
\<close>

definition trimHexPrefixOf :: "val \<Rightarrow> val" where
  "trimHexPrefixOf arg = (case arg of JString s \<Rightarrow> JString (trimHexPrefix s) | _ \<Rightarrow> arg)"

text \<open>\<open>Map.prototype.set\<close> compares primitive keys by value and objects by identity; an
  object produced or passed on by \<open>parseCalldata\<close> is never the key of an earlier entry.\<close>

fun isPrimitive :: "val \<Rightarrow> bool" where
  "isPrimitive (JBytes b) = False"
| "isPrimitive (JArray xs) = False"
| "isPrimitive (JMap m) = False"
| "isPrimitive (JObject m) = False"
| "isPrimitive v = True"

definition JMap_set :: "(val \<times> val) list \<Rightarrow> val \<Rightarrow> val \<Rightarrow> (val \<times> val) list" where
  "JMap_set m k v = (if isPrimitive k then AList.update k v m else m @ [(k, v)])"

text \<open>\<open>reconstructSchema\<close> retypes every immediate struct field of the node it is given
  to \<open>document\<close> and leaves that field's own \<open>fields\<close> in place.\<close>

definition reconstructSchema :: "schema \<Rightarrow> error + schema" where
  "reconstructSchema s =
     (case schema_fields s of
        None \<Rightarrow> Inl (TypeError ''Cannot convert undefined or null to object'')
      | Some fs \<Rightarrow>
          Inr (Schema (kind s)
                 (Some (map (\<lambda>(key, c). (key, if kind c = ''struct''
                                               then Schema ''document'' (schema_fields c) else c)) fs))))"

text \<open>
  \<open>parseCalldata (schema, arg, updateType)\<close> with its local helpers: \<open>parseArray\<close>
  (the \<open>arg.map\<close> over the elements, the flag being true at the last index),
  \<open>parseMap\<close> (the \<open>forEach\<close> over the entries, filling a fresh \<open>Map\<close>) and the
  \<open>forEach\<close> over \<open>Object.keys (arg)\<close> of \<open>parseStruct\<close>.  Every call returns the
  schema node as the call leaves it, next to the value.  No branch tests the type of
  the argument but the one under \<open>bytes\<close>: what an argument of another shape does is
  what the runtime does with it.
\<close>

function (sequential)
  parseCalldata :: "coder_deps \<Rightarrow> schema \<Rightarrow> val \<Rightarrow> bool \<Rightarrow> error + (schema \<times> val)"
  and parseArray :: "coder_deps \<Rightarrow> bool \<Rightarrow> schema \<Rightarrow> val list \<Rightarrow> error + (schema \<times> val list)"
  and parseMap :: "coder_deps \<Rightarrow> schema \<Rightarrow> schema option \<Rightarrow> (val \<times> val) list \<Rightarrow> (val \<times> val) list
                     \<Rightarrow> error + (schema \<times> schema option \<times> (val \<times> val) list)"
  and parseStructFields :: "coder_deps \<Rightarrow> bool \<Rightarrow> (string \<times> schema) list \<Rightarrow> (string \<times> val) list
                     \<Rightarrow> error + ((string \<times> schema) list \<times> (string \<times> val) list)"
where
  "parseCalldata E schema arg updateType =
     (if kind schema = ''string'' then Inr (schema, trimHexPrefixOf arg)
      else if kind schema = ''bytes'' then
        (case arg of
           JString s \<Rightarrow> bindE (hexToBytes E s) (\<lambda>b. Inr (schema, JBytes b))
         | _ \<Rightarrow> Inr (schema, arg))
      else if kind schema = ''array'' then
        (case schema_fields schema of
           None \<Rightarrow> Inl (TypeError ''Cannot read properties of undefined (reading values)'')
         | Some fs \<Rightarrow>
            (case map_of fs ''values'' of
               None \<Rightarrow> Inl (TypeError ''Cannot read properties of undefined (reading kind)'')
             | Some vs \<Rightarrow>
                if kind vs \<in> set parsableKinds then
                  (case mapElements arg of
                     None \<Rightarrow> Inl (TypeError ''arg.map is not a function'')
                   | Some xs \<Rightarrow>
                       bindE (parseArray E (isTyped arg) vs xs) (\<lambda>(vs', ys).
                         Inr (Schema (kind schema) (Some (AList.update ''values'' vs' fs)),
                              mapResult arg ys)))
                else Inr (schema, arg)))
      else if kind schema = ''map'' then
        (case schema_fields schema of
           None \<Rightarrow> Inl (TypeError ''Cannot read properties of undefined (reading keys)'')
         | Some fs \<Rightarrow>
            (case map_of fs ''keys'' of
               None \<Rightarrow> Inl (TypeError ''Cannot read properties of undefined (reading kind)'')
             | Some ks \<Rightarrow>
                if kind ks \<in> set parsableKinds
                   \<or> (case map_of fs ''values'' of None \<Rightarrow> False
                       | Some vs \<Rightarrow> kind vs \<in> set parsableKinds) then
                  (case entriesOf arg of
                     None \<Rightarrow> Inl (TypeError ''arg.entries is not a function'')
                   | Some entries \<Rightarrow>
                       bindE (parseMap E ks (map_of fs ''values'') entries []) (\<lambda>(ks', vso, m).
                         Inr (Schema (kind schema)
                                (Some (case vso of
                                         None \<Rightarrow> AList.update ''keys'' ks' fs
                                       | Some vs' \<Rightarrow>
                                           AList.update ''values'' vs' (AList.update ''keys'' ks' fs))),
                              JMap m)))
                else if map_of fs ''values'' = None
                then Inl (TypeError ''Cannot read properties of undefined (reading kind)'')
                else Inr (schema, arg)))
      else if kind schema = ''struct'' then
        (case stringHead arg of
           Some c \<Rightarrow>
             (case schema_fields schema of
                None \<Rightarrow> Inl (TypeError ''Cannot read properties of undefined'')
              | Some fs \<Rightarrow>
                  (case map_of fs ''0'' of
                     None \<Rightarrow> Inl (TypeError ''Cannot read properties of undefined (reading kind)'')
                   | Some child \<Rightarrow>
                       bindE (parseCalldata E child (JString [c]) False) (\<lambda>r.
                         Inl (TypeError ''Cannot assign to read only property of string''))))
         | None \<Rightarrow>
             (case ownEntries arg of
                None \<Rightarrow> Inl (TypeError ''Cannot convert undefined or null to object'')
              | Some entries \<Rightarrow>
                  (case schema_fields schema of
                     None \<Rightarrow> Inl (TypeError ''Cannot read properties of undefined'')
                   | Some fs \<Rightarrow>
                       bindE (parseStructFields E (isTyped arg) fs entries) (\<lambda>(fs', entries').
                       bindE (reconstructSchema (Schema (kind schema) (Some fs'))) (\<lambda>copy.
                       bindE (documentEncode E (withEntries arg entries') copy) (\<lambda>doc.
                         Inr (if updateType then Schema ''document'' None
                              else Schema (kind schema) (Some fs'),
                              doc_data doc)))))))
      else Inr (schema, arg))"
| "parseArray E typed schema [] = Inr (schema, [])"
| "parseArray E typed schema (x # xs) =
     bindE (parseCalldata E schema x (xs = [])) (\<lambda>(schema', y).
     bindE (stored E typed y) (\<lambda>y'.
     bindE (parseArray E typed schema' xs) (\<lambda>(schema'', ys). Inr (schema'', y' # ys))))"
| "parseMap E ks vso [] m = Inr (ks, vso, m)"
| "parseMap E ks vso ((k, v) # entries) m =
     bindE (parseCalldata E ks k (entries = [])) (\<lambda>(ks', k').
       (case vso of
          None \<Rightarrow> Inl (TypeError ''Cannot read properties of undefined (reading kind)'')
        | Some vs \<Rightarrow>
            bindE (parseCalldata E vs v (entries = [])) (\<lambda>(vs', v').
              parseMap E ks' (Some vs') entries (JMap_set m k' v'))))"
| "parseStructFields E typed fs [] = Inr (fs, [])"
| "parseStructFields E typed fs ((key, v) # entries) =
     (case map_of fs key of
        None \<Rightarrow> Inl (TypeError ''Cannot read properties of undefined (reading kind)'')
      | Some c \<Rightarrow>
          bindE (parseCalldata E c v False) (\<lambda>(c', v').
          bindE (stored E typed v') (\<lambda>v''.
          bindE (parseStructFields E typed (AList.update key c' fs) entries) (\<lambda>(fs', entries').
            Inr (fs', (key, v'') # entries')))))"
  by pat_completeness auto
termination
proof -
  have zip_sum: "sum_list (map (\<lambda>e. f (snd e)) (zip ks xs)) = sum_list (map f xs)"
    if "length ks = length xs" for f :: "val \<Rightarrow> nat" and ks :: "'k list" and xs
    using that by (induction ks xs rule: list_induct2) simp_all
  have const_sum: "sum_list (map (\<lambda>x. c) xs) = c * length xs" for c :: nat and xs :: "'e list"
    by (induction xs) simp_all
  have mono_sum: "sum_list (map f xs) \<le> sum_list (map g xs)" if "\<And>x. f x \<le> g x"
    for f g :: "val \<Rightarrow> nat" and xs
    using that by (induction xs) (simp_all add: add_mono)
  have elements_less: "sum_list (map (\<lambda>x. Suc (vsize x)) xs) < vsize arg"
    if "mapElements arg = Some xs" for arg xs
  proof (cases arg)
    case (JArray ys)
    have "sum_list (map (\<lambda>x. Suc (vsize x)) ys) \<le> sum_list (map (\<lambda>x. vsize x + 2) ys)"
      by (rule mono_sum) simp
    with JArray that show ?thesis by (simp add: mapElements_def)
  next
    case (JBytes bs)
    have "sum_list (map (\<lambda>x. Suc (vsize x)) (map byteNumber bs)) = 2 * length bs"
      by (simp add: comp_def byteNumber_def const_sum)
    with JBytes that show ?thesis by (auto simp: mapElements_def)
  qed (use that in \<open>simp_all add: mapElements_def\<close>)
  have entries_less: "sum_list (map (\<lambda>e. Suc (vsize (fst e) + vsize (snd e))) es) < vsize arg"
    if "entriesOf arg = Some es" for arg es
  proof (cases arg)
    case (JArray xs)
    have "sum_list (map (\<lambda>e. Suc (vsize (fst e) + vsize (snd e)))
            (zip (map (\<lambda>i. JNumber (int i)) [0..<length xs]) xs))
          = sum_list (map (\<lambda>e. vsize (snd e) + 2)
              (zip (map (\<lambda>i. JNumber (int i)) [0..<length xs]) xs))"
      by (rule arg_cong[where f = sum_list]) (auto simp: in_set_zip)
    also have "\<dots> = sum_list (map (\<lambda>x. vsize x + 2) xs)"
      by (rule zip_sum) simp
    finally show ?thesis using JArray that by (auto simp: entriesOf_def)
  next
    case (JBytes bs)
    have "sum_list (map (\<lambda>e. Suc (vsize (fst e) + vsize (snd e)))
            (zip (map (\<lambda>i. JNumber (int i)) [0..<length bs]) (map byteNumber bs)))
          = sum_list (map (\<lambda>e. 3)
              (zip (map (\<lambda>i. JNumber (int i)) [0..<length bs]) (map byteNumber bs)))"
      by (rule arg_cong[where f = sum_list]) (auto simp: in_set_zip byteNumber_def)
    also have "\<dots> = 3 * length bs"
      by (simp add: const_sum)
    finally show ?thesis using JBytes that by (auto simp: entriesOf_def)
  qed (use that in \<open>auto simp: entriesOf_def\<close>)
  have own_less: "sum_list (map (\<lambda>e. Suc (vsize (snd e))) es) < vsize arg"
    if "ownEntries arg = Some es" and "stringHead arg = None" for arg es
  proof (cases arg)
    case (JArray xs)
    have "sum_list (map (\<lambda>e. Suc (vsize (snd e))) (zip (map decimal [0..<length xs]) xs))
          = sum_list (map (\<lambda>x. Suc (vsize x)) xs)"
      by (rule zip_sum) simp
    also have "\<dots> \<le> sum_list (map (\<lambda>x. vsize x + 2) xs)"
      by (rule mono_sum) simp
    finally show ?thesis using JArray that by (auto simp: ownEntries_def)
  next
    case (JBytes bs)
    have "sum_list (map (\<lambda>e. Suc (vsize (snd e)))
            (zip (map decimal [0..<length bs]) (map byteNumber bs)))
          = sum_list (map (\<lambda>x. Suc (vsize x)) (map byteNumber bs))"
      by (rule zip_sum) simp
    also have "\<dots> = 2 * length bs"
      by (simp add: comp_def byteNumber_def const_sum)
    finally show ?thesis using JBytes that by (auto simp: ownEntries_def)
  next
    case (JString s)
    with that(2) have "s = []" by (cases s) (simp_all add: stringHead_def)
    with JString that(1) show ?thesis by (auto simp: ownEntries_def)
  qed (use that in \<open>auto simp: ownEntries_def\<close>)
  have head_size: "3 \<le> vsize arg" if "stringHead arg = Some c" for arg c
    using that by (cases arg) (auto simp: stringHead_def split: list.splits)
  have field_list_less: "size c < size (Schema k (Some fs))" if "map_of fs l = Some c"
    for fs :: "(string \<times> schema) list" and l c k
    using that by (induction fs) (auto split: if_splits)
  have field_less: "size c < size s" if "schema_fields s = Some fs" and "map_of fs l = Some c"
    for s fs l c
    using field_list_less[OF that(2), of "kind s"] that(1) by (cases s) simp
  show ?thesis
    by (relation "inv_image (less_than <*lex*> less_than) (\<lambda>x. case x of
            Inl (Inl (E, s, v, u)) \<Rightarrow> (vsize v, size s)
          | Inl (Inr (E, t, s, xs)) \<Rightarrow> (sum_list (map (\<lambda>x. Suc (vsize x)) xs), 0)
          | Inr (Inl (E, ks, vso, es, m)) \<Rightarrow>
              (sum_list (map (\<lambda>e. Suc (vsize (fst e) + vsize (snd e))) es), 0)
          | Inr (Inr (E, t, fs, es)) \<Rightarrow> (sum_list (map (\<lambda>e. Suc (vsize (snd e))) es), 0))")
       (auto simp: elements_less entries_less own_less intro: field_less dest: head_size)
qed

subsection \<open>encodeArguments, decodeArguments, decodeEventOutput\<close>

text \<open>\<open>args[field.slot]\<close>: reading past the end of an array gives \<open>undefined\<close>.\<close>

definition jsIndex :: "val list \<Rightarrow> nat \<Rightarrow> val" where
  "jsIndex xs i = (if i < length xs then xs ! i else JUndefined)"

text \<open>\<open>decodedCalldata[field.label]\<close>: a missing property is \<open>undefined\<close>; reading a
  property of \<open>null\<close> or \<open>undefined\<close> throws.\<close>

definition jsProp :: "val \<Rightarrow> string \<Rightarrow> error + val" where
  "jsProp v l =
     (case v of
        JObject m \<Rightarrow> Inr (case map_of m l of None \<Rightarrow> JUndefined | Some x \<Rightarrow> x)
      | JNull \<Rightarrow> Inl (TypeError ''Cannot read properties of null'')
      | JUndefined \<Rightarrow> Inl (TypeError ''Cannot read properties of undefined'')
      | _ \<Rightarrow> Inr JUndefined)"

definition acceptsOf :: "coder_deps \<Rightarrow> RoutineOrName \<Rightarrow> error + LogicField list option" where
  "acceptsOf E routine =
     (case routine of
        ByName n \<Rightarrow> bindE (getRoutineElement E n) (\<lambda>element. Inr (accepts element))
      | ByValue r \<Rightarrow> Inr (accepts r))"

text \<open>The body of the \<open>reduce\<close> of \<open>encodeArguments\<close>: the accumulator next to the
  schema, whose field nodes \<open>parseCalldata\<close> may rewrite (\<open>updateType\<close> defaults to
  true).\<close>

definition argumentOfField ::
  "coder_deps \<Rightarrow> val list \<Rightarrow> schema \<times> (string \<times> val) list \<Rightarrow> LogicField
     \<Rightarrow> error + (schema \<times> (string \<times> val) list)" where
  "argumentOfField E args st field =
     (case schema_fields (fst st) of
        None \<Rightarrow> Inl (TypeError ''Cannot read properties of undefined'')
      | Some sfs \<Rightarrow>
          (case map_of sfs (label field) of
             None \<Rightarrow> Inl (TypeError ''Cannot read properties of undefined (reading kind)'')
           | Some c \<Rightarrow>
               bindE (parseCalldata E c (jsIndex args (slot field)) True) (\<lambda>(c', v).
                 Inr (Schema (kind (fst st)) (Some (AList.update (label field) c' sfs)),
                      AList.update (label field) v (snd st)))))"



definition decodeArguments :: "coder_deps \<Rightarrow> RoutineOrName \<Rightarrow> string \<Rightarrow> error + val" where
  "decodeArguments E routine calldata =
     bindE (acceptsOf E routine) (\<lambda>fields.
       if fields = Some [] then Inr JNull
       else
         bindE (parseFields E (case fields of None \<Rightarrow> [] | Some fs \<Rightarrow> fs)) (\<lambda>schema.
         bindE (hexToBytes E calldata) (\<lambda>b.
         bindE (depolorize E b schema) (\<lambda>decodedCalldata.
           (case fields of
              None \<Rightarrow> Inl (TypeError ''Cannot read properties of undefined (reading map)'')
            | Some fs \<Rightarrow>
                bindE (mapE (\<lambda>field. jsProp decodedCalldata (label field)) fs) (\<lambda>vs.
                  Inr (JArray vs)))))))"

definition decodeEventOutput :: "coder_deps \<Rightarrow> string \<Rightarrow> string \<Rightarrow> error + val" where
  "decodeEventOutput E event logData =
     (if event = ''builtin.Log''
      then bindE (hexToBytes E logData) (\<lambda>b. depolorize E b (builtInLogEventSchema E))
      else
        bindE (getEventElement E event) (\<lambda>element.
          if element = None
          then Inl (Error (''Event '' @ event @ '' not found in manifest''))
          else if logData \<noteq> [] \<and> logData \<noteq> ''0x''
          then
            bindE (getEventElement E event) (\<lambda>element'.
              (case element' of
                 None \<Rightarrow> Inl (TypeError ''Cannot read properties of undefined (reading data)'')
               | Some el \<Rightarrow>
                   bindE (parseFields E (event_fields el)) (\<lambda>schema.
                   bindE (hexToBytes E logData) (\<lambda>b. depolorize E b schema))))
          else Inr JNull))"

section \<open>Stand-ins for the external helpers\<close>

text \<open>
  Modelled from the spec: the hex helpers of js-moi-utils are not among the sources.
  The spec (section 6) has addresses, ids and encoded data cross the boundary as
  prefixed-hex text and be raw bytes inside.  \<open>hexDecode\<close> reads two hex digits per
  byte after the optional prefix and rejects anything else; \<open>hexEncode\<close> writes two
  lower-case digits per byte.  They serve where the model is run on a concrete input.
\<close>

definition hexDigitValue :: "char \<Rightarrow> nat option" where
  "hexDigitValue c =
     (let n = (of_char c :: nat)
      in if 48 \<le> n \<and> n \<le> 57 then Some (n - 48)
         else if 97 \<le> n \<and> n \<le> 102 then Some (n - 87)
         else if 65 \<le> n \<and> n \<le> 70 then Some (n - 55)
         else None)"

fun hexPairs :: "string \<Rightarrow> byte list option" where
  "hexPairs [] = Some []"
| "hexPairs [c] = None"
| "hexPairs (c # d # cs) =
     (case hexDigitValue c of None \<Rightarrow> None
      | Some h \<Rightarrow> (case hexDigitValue d of None \<Rightarrow> None
          | Some l \<Rightarrow> (case hexPairs cs of None \<Rightarrow> None
              | Some bs \<Rightarrow> Some (of_nat (16 * h + l) # bs))))"

definition hexDecode :: "string \<Rightarrow> error + byte list" where
  "hexDecode s = (case hexPairs (trimHexPrefix s) of
                    None \<Rightarrow> Inl (Error ''invalid hex string'')
                  | Some bs \<Rightarrow> Inr bs)"

definition hexDigit :: "nat \<Rightarrow> char" where
  "hexDigit n = ''0123456789abcdef'' ! n"

definition hexEncode :: "byte list \<Rightarrow> string" where
  "hexEncode bs = concat (map (\<lambda>b. [hexDigit (unat b div 16), hexDigit (unat b mod 16)]) bs)"

text \<open>
  Modelled from the spec: \<open>ZERO_ADDRESS\<close>, \<open>serializePayload\<close> and the POLO writer are
  not among the sources.  The zero address is the well-known all-zero address of 32
  bytes; the two writers are total here and write nothing, since no statement below
  depends on the bytes they produce.
\<close>

definition referenceSerializerDeps :: serializer_deps where
  "referenceSerializerDeps =
     \<lparr>hexToBytes = hexDecode,
      ZERO_ADDRESS = ''0x'' @ replicate 64 (CHR ''0''),
      serializePayload = (\<lambda>t p. Inr []),
      polorize = (\<lambda>ix. Inr [])\<rparr>"

text \<open>
  Modelled from the spec: the document writer and reader of js-polo and
  \<open>Schema.parseFields\<close> are not among the sources.  The spec (section 6) asks of them
  a document form \<open>encodeDocument (mapping, schema)\<close> with \<open>bytes ()\<close> and raw data,
  mirrored by a decode-to-mapping operation.  The pair below is a small such codec.
  The writer takes a document whose keys are the labels of the schema, in order; it
  writes a string and a byte sequence as one length byte and the content, an already
  encoded sub-document (kind \<open>document\<close>) as one length byte and its raw data, an
  array as one count byte and its elements; it rejects anything else.  The reader
  reads strings and byte sequences back and rejects input that ends before the fields
  of the schema are read.  \<open>referenceParseFields\<close> resolves the type descriptors
  \<open>string\<close> and \<open>bytes\<close> to a node of that kind and fails on any other descriptor.
\<close>

definition rawData :: "(string \<times> val) list \<Rightarrow> byte list option" where
  "rawData es =
     map_option concat (those (map (\<lambda>e. case snd e of JBytes b \<Rightarrow> Some b | _ \<Rightarrow> None) es))"

definition framed :: "byte list \<Rightarrow> byte list option" where
  "framed b = (if length b < 256 then Some (of_nat (length b) # b) else None)"

fun encodeValue :: "schema \<Rightarrow> val \<Rightarrow> byte list option" where
  "encodeValue s v =
     (if kind s = ''string'' then
        (case v of JString str \<Rightarrow> framed (map of_char str) | _ \<Rightarrow> None)
      else if kind s = ''bytes'' then
        (case v of JBytes b \<Rightarrow> framed b | _ \<Rightarrow> None)
      else if kind s = ''document'' then
        (case v of
           JObject es \<Rightarrow> (case rawData es of None \<Rightarrow> None | Some b \<Rightarrow> framed b)
         | _ \<Rightarrow> None)
      else if kind s = ''array'' then
        (case v of
           JArray xs \<Rightarrow>
             (case schema_fields s of
                None \<Rightarrow> None
              | Some fs \<Rightarrow>
                  (case map_of fs ''values'' of
                     None \<Rightarrow> None
                   | Some vs \<Rightarrow>
                       (case those (map (encodeValue vs) xs) of
                          None \<Rightarrow> None
                        | Some bs \<Rightarrow>
                            if length xs < 256
                            then Some (of_nat (length xs) # concat bs) else None)))
         | _ \<Rightarrow> None)
      else None)"

fun encodeFields :: "(string \<times> schema) list \<Rightarrow> (string \<times> val) list \<Rightarrow> (string \<times> byte list) list option" where
  "encodeFields [] [] = Some []"
| "encodeFields ((l, c) # fs) ((k, v) # es) =
     (if l = k
      then (case encodeValue c v of
              None \<Rightarrow> None
            | Some b \<Rightarrow> (case encodeFields fs es of
                          None \<Rightarrow> None
                        | Some bs \<Rightarrow> Some ((k, b) # bs)))
      else None)"
| "encodeFields fs es = None"

definition referenceDocumentEncode :: "val \<Rightarrow> schema \<Rightarrow> error + document" where
  "referenceDocumentEncode v s =
     (case (v, schema_fields s) of
        (JObject es, Some fs) \<Rightarrow>
          (case encodeFields fs es of
             None \<Rightarrow> Inl (Error ''unsupported document'')
           | Some bs \<Rightarrow>
               Inr \<lparr>doc_bytes = concat (map snd bs),
                    doc_data = JObject (map (\<lambda>(k, b). (k, JBytes b)) bs)\<rparr>)
      | _ \<Rightarrow> Inl (Error ''unsupported document''))"

definition decodeValue :: "schema \<Rightarrow> byte list \<Rightarrow> (val \<times> byte list) option" where
  "decodeValue s bs =
     (case bs of
        [] \<Rightarrow> None
      | n # rest \<Rightarrow>
          if unat n \<le> length rest
          then (if kind s = ''string''
                then Some (JString (map (\<lambda>b. char_of (unat b)) (take (unat n) rest)),
                           drop (unat n) rest)
                else if kind s = ''bytes''
                then Some (JBytes (take (unat n) rest), drop (unat n) rest)
                else None)
          else None)"

fun decodeFields :: "(string \<times> schema) list \<Rightarrow> byte list \<Rightarrow> (string \<times> val) list option" where
  "decodeFields [] bs = (if bs = [] then Some [] else None)"
| "decodeFields ((l, c) # fs) bs =
     (case decodeValue c bs of
        None \<Rightarrow> None
      | Some (v, rest) \<Rightarrow>
          (case decodeFields fs rest of
             None \<Rightarrow> None
           | Some es \<Rightarrow> Some ((l, v) # es)))"

definition referenceDepolorize :: "byte list \<Rightarrow> schema \<Rightarrow> error + val" where
  "referenceDepolorize bs s =
     (case schema_fields s of
        None \<Rightarrow> Inl (Error ''unsupported schema'')
      | Some fs \<Rightarrow>
          (case decodeFields fs bs of
             None \<Rightarrow> Inl (Error ''insufficient data in wire for decode'')
           | Some es \<Rightarrow> Inr (JObject es)))"

definition referenceParseField :: "LogicField \<Rightarrow> error + (string \<times> schema)" where
  "referenceParseField f =
     (if ftype f = ''string'' \<or> ftype f = ''bytes''
      then Inr (label f, Schema (ftype f) None)
      else Inl (Error ''unsupported type''))"

definition referenceParseFields :: "LogicField list \<Rightarrow> error + schema" where
  "referenceParseFields fs =
     bindE (mapE referenceParseField fs) (\<lambda>sfs. Inr (Schema ''struct'' (Some sfs)))"

text \<open>
  Modelled from the spec: the conversion of a stored value by a \<open>Uint8Array\<close> belongs
  to the runtime.  The stand-in converts a number (modulo 256), a boolean, \<open>null\<close> and
  \<open>undefined\<close>, throws on a \<open>bigint\<close> as the runtime does, and rejects the rest.
\<close>

definition referenceToUint8 :: "val \<Rightarrow> error + byte" where
  "referenceToUint8 v =
     (case v of
        JNumber n \<Rightarrow> Inr (of_int n)
      | JBool b \<Rightarrow> Inr (if b then 1 else 0)
      | JNull \<Rightarrow> Inr 0
      | JUndefined \<Rightarrow> Inr 0
      | JBigInt n \<Rightarrow> Inl (TypeError ''Cannot convert a BigInt value to a number'')
      | _ \<Rightarrow> Inl (Error ''unsupported conversion''))"

definition referenceCoderDeps :: coder_deps where
  "referenceCoderDeps =
     \<lparr>hexToBytes = hexDecode,
      bytesToHex = hexEncode,
      parseFields = referenceParseFields,
      documentEncode = referenceDocumentEncode,
      depolorize = referenceDepolorize,
      builtInLogEventSchema = Schema ''struct'' (Some [(''value'', Schema ''string'' None)]),
      getRoutineElement = (\<lambda>n. Inl (Error ''routine not found'')),
      getEventElement = (\<lambda>n. Inr (if n = ''Transfer''
                                    then Some \<lparr>event_fields = [\<lparr>label = ''to'', ftype = ''string'', slot = 0\<rparr>]\<rparr>
                                    else None)),
      toUint8 = referenceToUint8\<rparr>"

section \<open>Notions used to state the properties\<close>

text \<open>The supplied funds of an interaction, none when the list is absent.\<close>

definition suppliedFunds :: "InteractionObject \<Rightarrow> IxAssetFund list" where
  "suppliedFunds ixObject = (case funds ixObject of None \<Rightarrow> [] | Some fs \<Rightarrow> fs)"

text \<open>The amount a list of supplied funds gives for a trimmed asset id: that of the
  first entry naming the asset.\<close>

definition suppliedAmount :: "IxAssetFund list \<Rightarrow> string \<Rightarrow> numeric option" where
  "suppliedAmount fs k = map_of (map (\<lambda>f. (trimHexPrefix (fund_asset_id f), fund_amount f)) fs) k"

definition fundOf :: "string \<times> numeric \<Rightarrow> IxAssetFund" where
  "fundOf e = \<lparr>fund_asset_id = fst e, fund_amount = snd e\<rparr>"

text \<open>The first entry of an insertion-ordered map.\<close>

definition headIs :: "('k \<times> 'v) list \<Rightarrow> 'k \<Rightarrow> 'v \<Rightarrow> bool" where
  "headIs ps k v = (\<exists>rest. ps = (k, v) # rest)"

text \<open>The schema node of a field: \<open>schema.fields[label]\<close>.\<close>

definition fieldSchema :: "schema \<Rightarrow> string \<Rightarrow> schema option" where
  "fieldSchema s l = (case schema_fields s of None \<Rightarrow> None | Some sfs \<Rightarrow> map_of sfs l)"

text \<open>The labels of the fields of a struct node with the kind of each field's node.\<close>

definition fieldKinds :: "(string \<times> schema) list \<Rightarrow> (string \<times> string) list" where
  "fieldKinds fs = map (\<lambda>e. (fst e, kind (snd e))) fs"


text \<open>The kind \<open>reconstructSchema\<close> gives a field of the copy it works on.\<close>

definition retyped :: "string \<Rightarrow> string" where
  "retyped k = (if k = ''struct'' then ''document'' else k)"

text \<open>A schema node that is not of kind \<open>struct\<close> and has no node of kind \<open>struct\<close>
  anywhere below it.\<close>

fun noStruct :: "schema \<Rightarrow> bool" where
  "noStruct (Schema k fo) =
     (k \<noteq> ''struct''
      \<and> (case fo of None \<Rightarrow> True | Some fs \<Rightarrow> list_all (\<lambda>e. noStruct (snd e)) fs))"

text \<open>A struct node none of whose fields has a struct node in it.\<close>

definition flatStruct :: "schema \<Rightarrow> bool" where
  "flatStruct s =
     (kind s = ''struct''
      \<and> (case schema_fields s of None \<Rightarrow> False | Some fs \<Rightarrow> list_all (\<lambda>e. noStruct (snd e)) fs))"

section \<open>Basic facts\<close>

lemma bindE_Inr: "bindE m f = Inr y \<longleftrightarrow> (\<exists>x. m = Inr x \<and> f x = Inr y)"
  by (cases m) (simp_all add: bindE_def)

lemma tryCatch_Inr: "tryCatch msg m = Inr y \<longleftrightarrow> m = Inr y"
  by (cases m) (simp_all add: tryCatch_def throwError_def)

lemma forEach_invariant:
  assumes "forEach f xs s = Inr s'" and "P s"
    and "\<And>s x t. P s \<Longrightarrow> x \<in> set xs \<Longrightarrow> f s x = Inr t \<Longrightarrow> P t"
  shows "P s'"
  using assms
proof (induction xs arbitrary: s)
  case Nil
  then show ?case by simp
next
  case (Cons x xs)
  from Cons.prems(1) obtain t where t: "f s x = Inr t" "forEach f xs t = Inr s'"
    by (auto simp: bindE_Inr)
  have Pt: "P t" by (rule Cons.prems(3)[OF Cons.prems(2) _ t(1)]) simp
  have step: "\<And>s x u. P s \<Longrightarrow> x \<in> set xs \<Longrightarrow> f s x = Inr u \<Longrightarrow> P u"
    by (rule Cons.prems(3)) simp_all
  show ?case by (rule Cons.IH[OF t(2) Pt]) (rule step)
qed

lemma mapE_fails:
  "x \<in> set xs \<Longrightarrow> f x = Inl e \<Longrightarrow> \<exists>e'. mapE f xs = Inl e'"
proof (induction xs)
  case Nil
  then show ?case by simp
next
  case (Cons y ys)
  show ?case
  proof (cases "f y")
    case (Inl a)
    then show ?thesis by (simp add: bindE_def)
  next
    case (Inr b)
    with Cons obtain e' where "mapE f ys = Inl e'" by auto
    with Inr show ?thesis by (simp add: bindE_def)
  qed
qed

lemma update_fresh: "map_of m k = None \<Longrightarrow> AList.update k v m = m @ [(k, v)]"
  by (induction m) (auto split: if_splits)

section \<open>Fund consolidation\<close>

lemma addAssetFund_lookup:
  "map_of (addAssetFund m f) k =
     (case map_of m k of Some a \<Rightarrow> Some a
      | None \<Rightarrow> if k = trimHexPrefix (fund_asset_id f) then Some (fund_amount f) else None)"
  by (auto simp: addAssetFund_def Map_has_def Map_set_def update_conv' split: option.splits)

lemma foldl_addAssetFund_lookup:
  "map_of (foldl addAssetFund m fs) k =
     (case map_of m k of Some a \<Rightarrow> Some a | None \<Rightarrow> suppliedAmount fs k)"
  by (induction fs arbitrary: m)
     (auto simp: addAssetFund_lookup suppliedAmount_def split: option.splits)

lemma addAssetFund_append: "\<exists>d. addAssetFund m f = m @ d"
  by (auto simp: addAssetFund_def Map_has_def Map_set_def update_fresh)

lemma foldl_addAssetFund_append: "\<exists>extra. foldl addAssetFund m fs = m @ extra"
proof (induction fs arbitrary: m)
  case Nil
  show ?case by simp
next
  case (Cons f fs)
  obtain e where e: "foldl addAssetFund (addAssetFund m f) fs = addAssetFund m f @ e"
    using Cons.IH by blast
  obtain d where "addAssetFund m f = m @ d"
    using addAssetFund_append by blast
  with e show ?case by simp
qed

lemma addAssetFund_distinct:
  "distinct (map fst m) \<Longrightarrow> distinct (map fst (addAssetFund m f))"
  by (simp add: addAssetFund_def Map_set_def distinct_update)

lemma foldl_addAssetFund_distinct:
  "distinct (map fst m) \<Longrightarrow> distinct (map fst (foldl addAssetFund m fs))"
  by (induction fs arbitrary: m) (simp_all add: addAssetFund_distinct)

lemma fundsOfTransaction_distinct:
  "distinct (map fst m) \<Longrightarrow> fundsOfTransaction m tx = Inr m' \<Longrightarrow> distinct (map fst m')"
  by (auto simp: fundsOfTransaction_def Map_set_def Let_def distinct_update
           split: if_splits option.splits)

lemma transactionFunds_distinct:
  assumes "transactionFunds txs = Inr m"
  shows "distinct (map fst m)"
  by (rule forEach_invariant[OF assms[unfolded transactionFunds_def],
        where P = "\<lambda>m. distinct (map fst m)"])
     (simp_all add: fundsOfTransaction_distinct)

lemma processFunds_unfold:
  "transactionFunds (transactions ix) = Inr implied \<Longrightarrow>
   processFunds ix = Inr (map fundOf (foldl addAssetFund implied (suppliedFunds ix)))"
  by (cases "funds ix")
     (simp_all add: processFunds_def bindE_def suppliedFunds_def fundOf_def case_prod_unfold)

text \<open>
  C5.  Let \<open>implied\<close> be the accumulator the scan of the transactions leaves.  The
  canonical funds are the entries of \<open>implied\<close>, unchanged and in their order, followed
  by appended entries.  An asset id that \<open>implied\<close> holds keeps the transaction-implied
  amount whatever the supplied list says; an asset id that \<open>implied\<close> does not hold
  gets the amount of its first entry in the supplied list, and is absent if the list
  does not name it.  No asset id occurs twice in the result.
\<close>

theorem processFunds_merge_precedence:
  assumes "transactionFunds (transactions ix) = Inr implied"
  shows "\<exists>appended.
           processFunds ix = Inr (map fundOf (implied @ appended))
           \<and> distinct (map fst (implied @ appended))
           \<and> (\<forall>k. map_of (implied @ appended) k =
                  (case map_of implied k of
                     Some a \<Rightarrow> Some a
                   | None \<Rightarrow> suppliedAmount (suppliedFunds ix) k))"
proof -
  obtain appended where a: "foldl addAssetFund implied (suppliedFunds ix) = implied @ appended"
    using foldl_addAssetFund_append by blast
  have "processFunds ix = Inr (map fundOf (implied @ appended))"
    using processFunds_unfold[OF assms] a by simp
  moreover have "distinct (map fst (implied @ appended))"
    using foldl_addAssetFund_distinct[OF transactionFunds_distinct[OF assms], of "suppliedFunds ix"] a
    by simp
  moreover have "\<forall>k. map_of (implied @ appended) k =
                  (case map_of implied k of
                     Some a \<Rightarrow> Some a
                   | None \<Rightarrow> suppliedAmount (suppliedFunds ix) k)"
    using foldl_addAssetFund_lookup[of implied "suppliedFunds ix"] a by simp
  ultimately show ?thesis by blast
qed

text \<open>The example of the spec: the transactions imply 5 of asset \<open>aa\<close>, the supplied
  funds are 3 of \<open>aa\<close> and 7 of \<open>bb\<close>.\<close>

theorem processFunds_merge_precedence_witness:
  "transactionFunds
     [\<lparr>tx_type = ASSET_TRANSFER,
       payload = Some \<lparr>asset_id = ''0xaa'', amount = Number 5, beneficiary = ''0x02'', logic_id = ''''\<rparr>\<rparr>]
     = Inr [(''aa'', Number 5)]
   \<and> processFunds
       \<lparr>sender = ''0x01'', payer = None, nonce = Number 0, fuel_price = Number 1,
        fuel_limit = Number 100,
        funds = Some [\<lparr>fund_asset_id = ''0xaa'', fund_amount = Number 3\<rparr>,
                      \<lparr>fund_asset_id = ''0xbb'', fund_amount = Number 7\<rparr>],
        participants = None,
        transactions =
          [\<lparr>tx_type = ASSET_TRANSFER,
            payload = Some \<lparr>asset_id = ''0xaa'', amount = Number 5, beneficiary = ''0x02'', logic_id = ''''\<rparr>\<rparr>]\<rparr>
     = Inr [\<lparr>fund_asset_id = ''aa'', fund_amount = Number 5\<rparr>,
            \<lparr>fund_asset_id = ''bb'', fund_amount = Number 7\<rparr>]"
proof -
  let ?tx = "\<lparr>tx_type = ASSET_TRANSFER,
       payload = Some \<lparr>asset_id = ''0xaa'', amount = Number 5, beneficiary = ''0x02'', logic_id = ''''\<rparr>\<rparr>"
  let ?ix = "\<lparr>sender = ''0x01'', payer = None, nonce = Number 0, fuel_price = Number 1,
        fuel_limit = Number 100,
        funds = Some [\<lparr>fund_asset_id = ''0xaa'', fund_amount = Number 3\<rparr>,
                      \<lparr>fund_asset_id = ''0xbb'', fund_amount = Number 7\<rparr>],
        participants = None, transactions = [?tx]\<rparr>"
  have h: "transactionFunds (transactions ?ix) = Inr [(''aa'', Number 5)]"
    by code_simp
  obtain appended where r: "processFunds ?ix = Inr (map fundOf ([(''aa'', Number 5)] @ appended))"
    and d: "distinct (map fst ([(''aa'', Number 5)] @ appended))"
    and l: "\<forall>k. map_of ([(''aa'', Number 5)] @ appended) k =
                  (case map_of [(''aa'', Number 5)] k of
                     Some a \<Rightarrow> Some a
                   | None \<Rightarrow> suppliedAmount (suppliedFunds ?ix) k)"
    using processFunds_merge_precedence[OF h] by blast
  have "processFunds ?ix = Inr [\<lparr>fund_asset_id = ''aa'', fund_amount = Number 5\<rparr>,
            \<lparr>fund_asset_id = ''bb'', fund_amount = Number 7\<rparr>]"
    by code_simp
  with h show ?thesis by simp
qed


lemma prefixed_neq: "''0x'' @ k \<noteq> k"
proof
  assume "''0x'' @ k = k"
  then have "length (''0x'' @ k) = length k" by simp
  then show False by simp
qed

lemma trimHexPrefix_prefixed: "trimHexPrefix (''0x'' @ k) = k"
  by (simp add: trimHexPrefix_def)

text \<open>
  C2.  Two transfers of the same asset, the asset id written with its "0x" prefix as
  it is at the boundary: \<open>processFunds\<close> reads the accumulator under the prefixed id
  and writes it under the trimmed id, so the second transfer finds no earlier amount
  and the consolidated entry holds the second amount alone, whatever the asset and
  the amounts.  With the amounts 5 and 7 the entry holds 7, not the sum 12; the same
  two transfers with the asset id written without prefix consolidate to 12.
\<close>

theorem processFunds_prefixed_asset_id_not_summed:
  "processFunds
     \<lparr>sender = s, payer = None, nonce = n, fuel_price = fp, fuel_limit = fl,
      funds = None, participants = None,
      transactions =
        [\<lparr>tx_type = ASSET_TRANSFER,
          payload = Some \<lparr>asset_id = ''0x'' @ k, amount = a, beneficiary = to, logic_id = l\<rparr>\<rparr>,
         \<lparr>tx_type = ASSET_TRANSFER,
          payload = Some \<lparr>asset_id = ''0x'' @ k, amount = b, beneficiary = to, logic_id = l\<rparr>\<rparr>]\<rparr>
     = Inr [\<lparr>fund_asset_id = k, fund_amount = addAmount b (Number 0)\<rparr>]
   \<and> processFunds
     \<lparr>sender = ''0x01'', payer = None, nonce = Number 0, fuel_price = Number 1,
      fuel_limit = Number 100, funds = None, participants = None,
      transactions =
        [\<lparr>tx_type = ASSET_TRANSFER,
          payload = Some \<lparr>asset_id = ''0xaa'', amount = Number 5, beneficiary = ''0x02'', logic_id = ''''\<rparr>\<rparr>,
         \<lparr>tx_type = ASSET_TRANSFER,
          payload = Some \<lparr>asset_id = ''0xaa'', amount = Number 7, beneficiary = ''0x02'', logic_id = ''''\<rparr>\<rparr>]\<rparr>
     = Inr [\<lparr>fund_asset_id = ''aa'', fund_amount = Number 7\<rparr>]
   \<and> processFunds
       \<lparr>sender = ''0x01'', payer = None, nonce = Number 0, fuel_price = Number 1,
        fuel_limit = Number 100, funds = None, participants = None,
        transactions =
          [\<lparr>tx_type = ASSET_TRANSFER,
            payload = Some \<lparr>asset_id = ''aa'', amount = Number 5, beneficiary = ''0x02'', logic_id = ''''\<rparr>\<rparr>,
           \<lparr>tx_type = ASSET_TRANSFER,
            payload = Some \<lparr>asset_id = ''aa'', amount = Number 7, beneficiary = ''0x02'', logic_id = ''''\<rparr>\<rparr>]\<rparr>
     = Inr [\<lparr>fund_asset_id = ''aa'', fund_amount = Number 12\<rparr>]"
proof (intro conjI)
  have ne: "CHR ''0'' # CHR ''x'' # k \<noteq> k"
    using prefixed_neq[of k] by simp
  have tr: "trimHexPrefix (CHR ''0'' # CHR ''x'' # k) = k"
    using trimHexPrefix_prefixed[of k] by simp
  show "processFunds
     \<lparr>sender = s, payer = None, nonce = n, fuel_price = fp, fuel_limit = fl,
      funds = None, participants = None,
      transactions =
        [\<lparr>tx_type = ASSET_TRANSFER,
          payload = Some \<lparr>asset_id = ''0x'' @ k, amount = a, beneficiary = to, logic_id = l\<rparr>\<rparr>,
         \<lparr>tx_type = ASSET_TRANSFER,
          payload = Some \<lparr>asset_id = ''0x'' @ k, amount = b, beneficiary = to, logic_id = l\<rparr>\<rparr>]\<rparr>
     = Inr [\<lparr>fund_asset_id = k, fund_amount = addAmount b (Number 0)\<rparr>]"
    using ne
    by (simp add: processFunds_def transactionFunds_def fundsOfTransaction_def bindE_def
          Map_get_def Map_set_def tr)
qed code_simp+

section \<open>Participant derivation\<close>

text \<open>
  C3.  The sender and the beneficiary of a transfer are the same prefixed address
  \<open>0x\<close>\<open>k\<close>.  The sender's entry is stored under the trimmed key \<open>k\<close>, the
  beneficiary's under the untrimmed key: the derived sequence holds two entries with
  the same address bytes, whatever the address.
\<close>

theorem processParticipants_beneficiary_key_untrimmed:
  assumes "hexToBytes E (''0x'' @ k) = Inr b"
  shows "processParticipants E
     \<lparr>sender = ''0x'' @ k, payer = None, nonce = n, fuel_price = fp,
      fuel_limit = fl, funds = None, participants = None,
      transactions =
        [\<lparr>tx_type = ASSET_TRANSFER,
          payload = Some \<lparr>asset_id = a, amount = m, beneficiary = ''0x'' @ k, logic_id = l\<rparr>\<rparr>]\<rparr>
     = Inr [\<lparr>p_address = b, p_lock_type = MUTATE_LOCK\<rparr>,
            \<lparr>p_address = b, p_lock_type = MUTATE_LOCK\<rparr>]"
proof -
  have ne: "k \<noteq> CHR ''0'' # CHR ''x'' # k"
    using prefixed_neq[of k] by auto
  have tr: "trimHexPrefix (CHR ''0'' # CHR ''x'' # k) = k"
    using trimHexPrefix_prefixed[of k] by simp
  from assms have hb: "hexToBytes E (CHR ''0'' # CHR ''x'' # k) = Inr b"
    by simp
  show ?thesis
    using ne
    by (simp add: processParticipants_def setParticipant_def participantOfTransaction_def
          assetActionParticipant_def bindE_def Map_set_def tr hb)
qed

text \<open>The sender \<open>0xaa\<close> as beneficiary of its own transfer; and a transfer to
  \<open>0xbb\<close> with \<open>0xbb\<close> also supplied as a participant asking for a read lock, which is
  stored once more, under the trimmed key, with that lock type.\<close>

theorem processParticipants_beneficiary_key_untrimmed_witness:
  "processParticipants referenceSerializerDeps
     \<lparr>sender = ''0xaa'', payer = None, nonce = Number 0, fuel_price = Number 1,
      fuel_limit = Number 100, funds = None, participants = None,
      transactions =
        [\<lparr>tx_type = ASSET_TRANSFER,
          payload = Some \<lparr>asset_id = ''0x00000000cc'', amount = Number 5,
                          beneficiary = ''0xaa'', logic_id = ''''\<rparr>\<rparr>]\<rparr>
     = Inr [\<lparr>p_address = [170], p_lock_type = MUTATE_LOCK\<rparr>,
            \<lparr>p_address = [170], p_lock_type = MUTATE_LOCK\<rparr>]
   \<and> processParticipants referenceSerializerDeps
       \<lparr>sender = ''0xaa'', payer = None, nonce = Number 0, fuel_price = Number 1,
        fuel_limit = Number 100, funds = None,
        participants = Some [\<lparr>address = ''0xbb'', lock_type = READ_LOCK\<rparr>],
        transactions =
          [\<lparr>tx_type = ASSET_TRANSFER,
            payload = Some \<lparr>asset_id = ''0x00000000cc'', amount = Number 5,
                            beneficiary = ''0xbb'', logic_id = ''''\<rparr>\<rparr>]\<rparr>
     = Inr [\<lparr>p_address = [170], p_lock_type = MUTATE_LOCK\<rparr>,
            \<lparr>p_address = [187], p_lock_type = MUTATE_LOCK\<rparr>,
            \<lparr>p_address = [187], p_lock_type = READ_LOCK\<rparr>]"
proof -
  have h: "hexToBytes referenceSerializerDeps (''0x'' @ ''aa'') = Inr [170]"
    by code_simp
  have "processParticipants referenceSerializerDeps
     \<lparr>sender = ''0x'' @ ''aa'', payer = None, nonce = Number 0, fuel_price = Number 1,
      fuel_limit = Number 100, funds = None, participants = None,
      transactions =
        [\<lparr>tx_type = ASSET_TRANSFER,
          payload = Some \<lparr>asset_id = ''0x00000000cc'', amount = Number 5,
                          beneficiary = ''0x'' @ ''aa'', logic_id = ''''\<rparr>\<rparr>]\<rparr>
     = Inr [\<lparr>p_address = [170], p_lock_type = MUTATE_LOCK\<rparr>,
            \<lparr>p_address = [170], p_lock_type = MUTATE_LOCK\<rparr>]"
    by (rule processParticipants_beneficiary_key_untrimmed[OF h])
  moreover have "processParticipants referenceSerializerDeps
       \<lparr>sender = ''0xaa'', payer = None, nonce = Number 0, fuel_price = Number 1,
        fuel_limit = Number 100, funds = None,
        participants = Some [\<lparr>address = ''0xbb'', lock_type = READ_LOCK\<rparr>],
        transactions =
          [\<lparr>tx_type = ASSET_TRANSFER,
            payload = Some \<lparr>asset_id = ''0x00000000cc'', amount = Number 5,
                            beneficiary = ''0xbb'', logic_id = ''''\<rparr>\<rparr>]\<rparr>
     = Inr [\<lparr>p_address = [170], p_lock_type = MUTATE_LOCK\<rparr>,
            \<lparr>p_address = [187], p_lock_type = MUTATE_LOCK\<rparr>,
            \<lparr>p_address = [187], p_lock_type = READ_LOCK\<rparr>]"
    by code_simp
  ultimately show ?thesis by simp
qed

lemma headIs_update_other: "headIs ps k v \<Longrightarrow> key \<noteq> k \<Longrightarrow> headIs (AList.update key w ps) k v"
  by (auto simp: headIs_def)

lemma headIs_update_same: "headIs ps k v \<Longrightarrow> headIs (AList.update k v ps) k v"
  by (auto simp: headIs_def)

lemma setParticipant_headIs:
  assumes "headIs ps k \<lparr>p_address = b, p_lock_type = MUTATE_LOCK\<rparr>"
    and "setParticipant E ps key addr lock = Inr ps'"
    and "key = k \<Longrightarrow> hexToBytes E addr = Inr b \<and> lock = MUTATE_LOCK"
  shows "headIs ps' k \<lparr>p_address = b, p_lock_type = MUTATE_LOCK\<rparr>"
proof -
  from assms(2) obtain c where c: "hexToBytes E addr = Inr c"
    and ps': "ps' = AList.update key \<lparr>p_address = c, p_lock_type = lock\<rparr> ps"
    by (auto simp: setParticipant_def bindE_Inr Map_set_def)
  show ?thesis
  proof (cases "key = k")
    case True
    with assms(3) c have "c = b" "lock = MUTATE_LOCK" by auto
    with True ps' assms(1) show ?thesis by (simp add: headIs_update_same)
  next
    case False
    with ps' assms(1) show ?thesis by (simp add: headIs_update_other)
  qed
qed

lemma setParticipant_self_headIs:
  assumes "headIs ps k \<lparr>p_address = b, p_lock_type = MUTATE_LOCK\<rparr>"
    and "setParticipant E ps a a MUTATE_LOCK = Inr ps'"
    and "hexToBytes E k = Inr b"
  shows "headIs ps' k \<lparr>p_address = b, p_lock_type = MUTATE_LOCK\<rparr>"
  using assms(3) by (intro setParticipant_headIs[OF assms(1,2)]) simp

lemma participantOfTransaction_cases:
  assumes "participantOfTransaction E ps tx = Inr ps'"
  shows "ps' = ps \<or> (\<exists>a. setParticipant E ps a a MUTATE_LOCK = Inr ps')"
  using assms
  by (cases "tx_type tx"; cases "payload tx")
     (simp_all add: participantOfTransaction_def assetSupplyParticipant_def
        assetActionParticipant_def logicParticipant_def throwError_def Let_def, blast+)

lemma participantOfTransaction_headIs:
  assumes h: "headIs ps k \<lparr>p_address = b, p_lock_type = MUTATE_LOCK\<rparr>"
    and r: "participantOfTransaction E ps tx = Inr ps'"
    and k: "hexToBytes E k = Inr b"
  shows "headIs ps' k \<lparr>p_address = b, p_lock_type = MUTATE_LOCK\<rparr>"
  using participantOfTransaction_cases[OF r] h k
  by (auto intro: setParticipant_self_headIs)

lemma addParticipant_headIs:
  assumes h: "headIs ps k v" and r: "addParticipant E ps x = Inr ps'"
  shows "headIs ps' k v"
proof (cases "Map_has ps (trimHexPrefix (address x))")
  case True
  with r show ?thesis using h by (simp add: addParticipant_def Let_def)
next
  case False
  with h have ne: "trimHexPrefix (address x) \<noteq> k"
    by (auto simp: headIs_def Map_has_def)
  from False r obtain c where
    "ps' = AList.update (trimHexPrefix (address x)) \<lparr>p_address = c, p_lock_type = lock_type x\<rparr> ps"
    by (auto simp: addParticipant_def Let_def setParticipant_def bindE_Inr Map_set_def)
  with h ne show ?thesis by (simp add: headIs_update_other)
qed

lemma processParticipants_head:
  assumes K: "\<And>s. s = trimHexPrefix (sender ix) \<or> trimHexPrefix s = trimHexPrefix (sender ix)
                \<Longrightarrow> hexToBytes E s = hexToBytes E (sender ix)"
    and b: "hexToBytes E (sender ix) = Inr b"
    and r: "processParticipants E ix = Inr ps"
  shows "\<exists>rest. ps = \<lparr>p_address = b, p_lock_type = MUTATE_LOCK\<rparr> # rest"
proof -
  let ?k = "trimHexPrefix (sender ix)"
  let ?v = "\<lparr>p_address = b, p_lock_type = MUTATE_LOCK\<rparr>"
  have kb: "hexToBytes E ?k = Inr b"
    using K[of ?k] b by simp
  from r obtain ps0 ps1 ps2 ps3 where
    s0: "setParticipant E [] ?k (sender ix) MUTATE_LOCK = Inr ps0"
    and s1: "(case payer ix of None \<Rightarrow> Inr ps0
              | Some p \<Rightarrow> setParticipant E ps0 (trimHexPrefix p) p MUTATE_LOCK) = Inr ps1"
    and s2: "forEach (participantOfTransaction E) (transactions ix) ps1 = Inr ps2"
    and s3: "(case participants ix of None \<Rightarrow> Inr ps2
              | Some supplied \<Rightarrow> forEach (addParticipant E) supplied ps2) = Inr ps3"
    and ps: "ps = map snd ps3"
    by (auto simp: processParticipants_def bindE_Inr)
  have h0: "headIs ps0 ?k ?v"
    using s0 b by (auto simp: setParticipant_def bindE_Inr Map_set_def headIs_def)
  have h1: "headIs ps1 ?k ?v"
  proof (cases "payer ix")
    case None
    with s1 h0 show ?thesis by simp
  next
    case (Some p)
    with s1 have sp: "setParticipant E ps0 (trimHexPrefix p) p MUTATE_LOCK = Inr ps1" by simp
    show ?thesis
    proof (rule setParticipant_headIs[OF h0 sp])
      assume "trimHexPrefix p = ?k"
      then show "hexToBytes E p = Inr b \<and> MUTATE_LOCK = MUTATE_LOCK"
        using K[of p] b by simp
    qed
  qed
  have h2: "headIs ps2 ?k ?v"
    by (rule forEach_invariant[OF s2, where P = "\<lambda>m. headIs m ?k ?v"])
       (auto intro: h1 participantOfTransaction_headIs[OF _ _ kb])
  have h3: "headIs ps3 ?k ?v"
  proof (cases "participants ix")
    case None
    with s3 h2 show ?thesis by simp
  next
    case (Some supplied)
    with s3 have "forEach (addParticipant E) supplied ps2 = Inr ps3" by simp
    then show ?thesis
      by (rule forEach_invariant[where P = "\<lambda>m. headIs m ?k ?v"])
         (auto intro: h2 addParticipant_headIs)
  qed
  with ps show ?thesis by (auto simp: headIs_def)
qed

text \<open>
  C9.  Whenever \<open>processIxObject\<close> returns a processed interaction, its participants
  start with the sender's entry: the sender's address bytes, with \<open>MUTATE_LOCK\<close>.
  Later writes under the sender's key leave the entry where it is and write the same
  value.  One fact about the absent \<open>hexToBytes\<close> is assumed: it gives the sender's
  bytes for the sender's key (the sender's address without prefix) and for every
  address with that key, that is, it does not look at the "0x" prefix of the
  sender's address.
\<close>

theorem processIxObject_sender_first:
  assumes "\<And>s. s = trimHexPrefix (sender ix) \<or> trimHexPrefix s = trimHexPrefix (sender ix)
             \<Longrightarrow> hexToBytes E s = hexToBytes E (sender ix)"
    and "processIxObject E ix = Inr p"
  shows "hexToBytes E (sender ix) = Inr (p_sender p) \<and>
         (\<exists>rest. p_participants p = \<lparr>p_address = p_sender p, p_lock_type = MUTATE_LOCK\<rparr> # rest)"
proof -
  from assms(2) obtain s ps where s: "hexToBytes E (sender ix) = Inr s"
    and ps: "processParticipants E ix = Inr ps"
    and p: "p_sender p = s" "p_participants p = ps"
    by (auto simp: processIxObject_def tryCatch_Inr bindE_Inr)
  from processParticipants_head[OF assms(1) s ps] s p show ?thesis by simp
qed

lemma hexDecode_trim: "trimHexPrefix s = trimHexPrefix t \<Longrightarrow> hexDecode s = hexDecode t"
  by (simp add: hexDecode_def)

text \<open>A run in which the sender's key is written three more times: by the payer (the
  same address without prefix), by a mint of an asset the sender owns, and by a
  supplied participant that asks for a read lock.\<close>

theorem processIxObject_sender_first_witness:
  "\<exists>p. processIxObject referenceSerializerDeps
         \<lparr>sender = ''0xaa'', payer = Some ''aa'', nonce = Number 0, fuel_price = Number 1,
          fuel_limit = Number 100, funds = None,
          participants = Some [\<lparr>address = ''0xaa'', lock_type = READ_LOCK\<rparr>,
                               \<lparr>address = ''0xbb'', lock_type = READ_LOCK\<rparr>],
          transactions =
            [\<lparr>tx_type = ASSET_MINT,
              payload = Some \<lparr>asset_id = ''0x00000000aa'', amount = Number 5,
                              beneficiary = '''', logic_id = ''''\<rparr>\<rparr>]\<rparr> = Inr p
       \<and> p_sender p = [170]
       \<and> p_participants p = [\<lparr>p_address = [170], p_lock_type = MUTATE_LOCK\<rparr>,
                              \<lparr>p_address = [187], p_lock_type = READ_LOCK\<rparr>]
       \<and> hexToBytes referenceSerializerDeps ''0xaa'' = Inr (p_sender p)
       \<and> (\<exists>rest. p_participants p = \<lparr>p_address = p_sender p, p_lock_type = MUTATE_LOCK\<rparr> # rest)"
proof -
  let ?ix = "\<lparr>sender = ''0xaa'', payer = Some ''aa'', nonce = Number 0, fuel_price = Number 1,
          fuel_limit = Number 100, funds = None,
          participants = Some [\<lparr>address = ''0xaa'', lock_type = READ_LOCK\<rparr>,
                               \<lparr>address = ''0xbb'', lock_type = READ_LOCK\<rparr>],
          transactions =
            [\<lparr>tx_type = ASSET_MINT,
              payload = Some \<lparr>asset_id = ''0x00000000aa'', amount = Number 5,
                              beneficiary = '''', logic_id = ''''\<rparr>\<rparr>]\<rparr>"
  let ?p = "\<lparr>p_sender = [170], p_payer = replicate 32 0, p_nonce = Number 0,
             p_fuel_price = Number 1, p_fuel_limit = Number 100, p_funds = [],
             p_transactions = [\<lparr>p_tx_type = ASSET_MINT, p_payload = []\<rparr>],
             p_participants = [\<lparr>p_address = [170], p_lock_type = MUTATE_LOCK\<rparr>,
                               \<lparr>p_address = [187], p_lock_type = READ_LOCK\<rparr>]\<rparr>"
  have r: "processIxObject referenceSerializerDeps ?ix = Inr ?p"
    by code_simp
  have sel: "hexToBytes referenceSerializerDeps = hexDecode"
    by (simp add: referenceSerializerDeps_def)
  have key: "trimHexPrefix (sender ?ix) = ''aa''" "trimHexPrefix ''aa'' = ''aa''"
    by (simp_all add: trimHexPrefix_def)
  have K: "\<And>s. s = trimHexPrefix (sender ?ix) \<or> trimHexPrefix s = trimHexPrefix (sender ?ix)
             \<Longrightarrow> hexToBytes referenceSerializerDeps s
                 = hexToBytes referenceSerializerDeps (sender ?ix)"
  proof -
    fix s
    assume "s = trimHexPrefix (sender ?ix) \<or> trimHexPrefix s = trimHexPrefix (sender ?ix)"
    then have "trimHexPrefix s = trimHexPrefix (sender ?ix)"
      using key by auto
    then show "hexToBytes referenceSerializerDeps s
                 = hexToBytes referenceSerializerDeps (sender ?ix)"
      unfolding sel by (rule hexDecode_trim)
  qed
  have "hexToBytes referenceSerializerDeps (sender ?ix) = Inr (p_sender ?p) \<and>
        (\<exists>rest. p_participants ?p = \<lparr>p_address = p_sender ?p, p_lock_type = MUTATE_LOCK\<rparr> # rest)"
    by (rule processIxObject_sender_first[OF K r])
  with r show ?thesis by (intro exI[of _ ?p]) simp
qed

section \<open>Assembling and serializing the processed interaction\<close>

text \<open>
  C4.  Whatever interaction \<open>processIxObject\<close> processes, with a payer or without,
  the payer field of the result is the bytes of \<open>ZERO_ADDRESS\<close>: the supplied payer
  is not read for it, although \<open>processParticipants\<close> enters the same payer among
  the participants.
\<close>

theorem processIxObject_payer_always_zero:
  assumes "processIxObject E ix = Inr p"
  shows "hexToBytes E (ZERO_ADDRESS E) = Inr (p_payer p)"
  using assms by (auto simp: processIxObject_def tryCatch_Inr bindE_Inr)

text \<open>An interaction that supplies the payer \<open>0xbb\<close>: the payer field is 32 zero
  bytes, not the byte of the supplied payer, which stands among the participants.\<close>

theorem processIxObject_payer_always_zero_witness:
  "\<exists>p. processIxObject referenceSerializerDeps
        \<lparr>sender = ''0xaa'', payer = Some ''0xbb'', nonce = Number 0, fuel_price = Number 1,
         fuel_limit = Number 100, funds = None, participants = None,
         transactions =
           [\<lparr>tx_type = ASSET_CREATE,
             payload = Some \<lparr>asset_id = '''', amount = Number 0,
                             beneficiary = '''', logic_id = ''''\<rparr>\<rparr>]\<rparr> = Inr p
      \<and> p_payer p = replicate 32 0
      \<and> hexToBytes referenceSerializerDeps (ZERO_ADDRESS referenceSerializerDeps)
          = Inr (p_payer p)
      \<and> hexToBytes referenceSerializerDeps ''0xbb'' = Inr [187]
      \<and> p_participants p = [\<lparr>p_address = [170], p_lock_type = MUTATE_LOCK\<rparr>,
                             \<lparr>p_address = [187], p_lock_type = MUTATE_LOCK\<rparr>]"
proof -
  let ?ix = "\<lparr>sender = ''0xaa'', payer = Some ''0xbb'', nonce = Number 0, fuel_price = Number 1,
         fuel_limit = Number 100, funds = None, participants = None,
         transactions =
           [\<lparr>tx_type = ASSET_CREATE,
             payload = Some \<lparr>asset_id = '''', amount = Number 0,
                             beneficiary = '''', logic_id = ''''\<rparr>\<rparr>]\<rparr>"
  let ?p = "\<lparr>p_sender = [170], p_payer = replicate 32 0, p_nonce = Number 0,
             p_fuel_price = Number 1, p_fuel_limit = Number 100, p_funds = [],
             p_transactions = [\<lparr>p_tx_type = ASSET_CREATE, p_payload = []\<rparr>],
             p_participants = [\<lparr>p_address = [170], p_lock_type = MUTATE_LOCK\<rparr>,
                               \<lparr>p_address = [187], p_lock_type = MUTATE_LOCK\<rparr>]\<rparr>"
  have r: "processIxObject referenceSerializerDeps ?ix = Inr ?p"
    by code_simp
  have z: "hexToBytes referenceSerializerDeps (ZERO_ADDRESS referenceSerializerDeps)
             = Inr (p_payer ?p)"
    by (rule processIxObject_payer_always_zero[OF r])
  have b: "hexToBytes referenceSerializerDeps ''0xbb'' = Inr [187]"
    by code_simp
  from r z b show ?thesis by (intro exI[of _ ?p]) simp
qed

lemma processTransaction_missing_payload:
  "payload tx = None \<Longrightarrow>
   processTransaction E tx = Inl (CustomError ''Payload is missing!'' MISSING_ARGUMENT None)"
  by (simp add: processTransaction_def throwError_def)

lemma processTransactions_missing_payload:
  "tx \<in> set txs \<Longrightarrow> payload tx = None \<Longrightarrow> \<exists>e. processTransactions E txs = Inl e"
  unfolding processTransactions_def
  by (erule mapE_fails) (rule processTransaction_missing_payload)

lemma processIxObject_missing_payload:
  assumes "tx \<in> set (transactions ix)" and "payload tx = None"
  shows "\<exists>e. processIxObject E ix =
              Inl (CustomError ''Failed to process interaction object'' UNKNOWN_ERROR (Some e))"
proof -
  obtain e where "processTransactions E (transactions ix) = Inl e"
    using processTransactions_missing_payload[OF assms] by blast
  then show ?thesis
    by (simp add: processIxObject_def bindE_def tryCatch_def throwError_def split: sum.splits)
qed

lemma serializeIxObject_missing_payload:
  assumes "tx \<in> set (transactions ix)" and "payload tx = None"
  shows "\<exists>e. serializeIxObject E ix =
              Inl (CustomError ''Failed to serialize interaction object'' UNKNOWN_ERROR
                     (Some (CustomError ''Failed to process interaction object'' UNKNOWN_ERROR
                              (Some e))))"
proof -
  obtain e where "processIxObject E ix =
      Inl (CustomError ''Failed to process interaction object'' UNKNOWN_ERROR (Some e))"
    using processIxObject_missing_payload[OF assms] by blast
  then show ?thesis
    by (simp add: serializeIxObject_def bindE_def tryCatch_def throwError_def)
qed

lemma forEach_fundsOfTransaction_TypeError:
  assumes "tx \<in> set txs" and "tx_type tx = ASSET_TRANSFER \<or> tx_type tx = ASSET_BURN"
    and "payload tx = None"
  shows "forEach fundsOfTransaction txs acc
           = Inl (TypeError ''Cannot read properties of undefined (reading asset_id)'')"
  using assms(1)
proof (induction txs arbitrary: acc)
  case Nil
  then show ?case by simp
next
  case (Cons x xs)
  show ?case
  proof (cases "fundsOfTransaction acc x")
    case (Inl e)
    then have "e = TypeError ''Cannot read properties of undefined (reading asset_id)''"
      by (auto simp: fundsOfTransaction_def Let_def split: if_splits option.splits)
    with Inl show ?thesis by (simp add: bindE_def)
  next
    case (Inr acc')
    with assms(2,3) have "x \<noteq> tx"
      by (auto simp: fundsOfTransaction_def)
    with Cons.prems have "tx \<in> set xs" by simp
    from Cons.IH[OF this] Inr show ?thesis by (simp add: bindE_def)
  qed
qed

text \<open>
  C6.  An interaction with a transfer or a burn whose payload is absent, the sender
  and the zero address decoding: \<open>processFunds\<close> runs before \<open>processTransactions\<close>
  and reads \<open>payload.asset_id\<close>, so the cause the two wrapping errors carry is the
  runtime's \<open>TypeError\<close>, not the \<open>MISSING_ARGUMENT\<close> error.
\<close>

theorem serializeIxObject_transfer_without_payload:
  assumes "tx \<in> set (transactions ix)"
    and "tx_type tx = ASSET_TRANSFER \<or> tx_type tx = ASSET_BURN"
    and "payload tx = None"
    and "hexToBytes E (sender ix) = Inr s"
    and "hexToBytes E (ZERO_ADDRESS E) = Inr z"
  shows "serializeIxObject E ix
     = Inl (CustomError ''Failed to serialize interaction object'' UNKNOWN_ERROR
         (Some (CustomError ''Failed to process interaction object'' UNKNOWN_ERROR
            (Some (TypeError ''Cannot read properties of undefined (reading asset_id)'')))))"
proof -
  have "processFunds ix = Inl (TypeError ''Cannot read properties of undefined (reading asset_id)'')"
    using forEach_fundsOfTransaction_TypeError[OF assms(1,2,3), of "[]"]
    by (simp add: processFunds_def transactionFunds_def bindE_def)
  then show ?thesis
    using assms(4,5)
    by (simp add: serializeIxObject_def processIxObject_def bindE_def tryCatch_def throwError_def)
qed

text \<open>A transfer without payload carries the \<open>TypeError\<close>; an asset creation without
  payload does carry \<open>MISSING_ARGUMENT\<close>.\<close>

theorem serializeIxObject_transfer_without_payload_witness:
  "serializeIxObject referenceSerializerDeps
     \<lparr>sender = ''0xaa'', payer = None, nonce = Number 0, fuel_price = Number 1,
      fuel_limit = Number 100, funds = None, participants = None,
      transactions = [\<lparr>tx_type = ASSET_TRANSFER, payload = None\<rparr>]\<rparr>
     = Inl (CustomError ''Failed to serialize interaction object'' UNKNOWN_ERROR
         (Some (CustomError ''Failed to process interaction object'' UNKNOWN_ERROR
            (Some (TypeError ''Cannot read properties of undefined (reading asset_id)'')))))
   \<and> serializeIxObject referenceSerializerDeps
     \<lparr>sender = ''0xaa'', payer = None, nonce = Number 0, fuel_price = Number 1,
      fuel_limit = Number 100, funds = None, participants = None,
      transactions = [\<lparr>tx_type = ASSET_CREATE, payload = None\<rparr>]\<rparr>
     = Inl (CustomError ''Failed to serialize interaction object'' UNKNOWN_ERROR
         (Some (CustomError ''Failed to process interaction object'' UNKNOWN_ERROR
            (Some (CustomError ''Payload is missing!'' MISSING_ARGUMENT None)))))"
proof -
  let ?tx = "\<lparr>tx_type = ASSET_TRANSFER, payload = None\<rparr>"
  let ?ix = "\<lparr>sender = ''0xaa'', payer = None, nonce = Number 0, fuel_price = Number 1,
      fuel_limit = Number 100, funds = None, participants = None, transactions = [?tx]\<rparr>"
  have 1: "?tx \<in> set (transactions ?ix)"
    and 2: "tx_type ?tx = ASSET_TRANSFER \<or> tx_type ?tx = ASSET_BURN"
    and 3: "payload ?tx = None"
    by simp_all
  have 4: "hexToBytes referenceSerializerDeps (sender ?ix) = Inr [170]"
    by code_simp
  have 5: "hexToBytes referenceSerializerDeps (ZERO_ADDRESS referenceSerializerDeps)
             = Inr (replicate 32 0)"
    by code_simp
  note serializeIxObject_transfer_without_payload[OF 1 2 3 4 5]
  moreover have "serializeIxObject referenceSerializerDeps
     \<lparr>sender = ''0xaa'', payer = None, nonce = Number 0, fuel_price = Number 1,
      fuel_limit = Number 100, funds = None, participants = None,
      transactions = [\<lparr>tx_type = ASSET_CREATE, payload = None\<rparr>]\<rparr>
     = Inl (CustomError ''Failed to serialize interaction object'' UNKNOWN_ERROR
         (Some (CustomError ''Failed to process interaction object'' UNKNOWN_ERROR
            (Some (CustomError ''Payload is missing!'' MISSING_ARGUMENT None)))))"
    by code_simp
  ultimately show ?thesis by simp
qed

section \<open>The manifest coder: events and absent field lists\<close>

declare parseCalldata.simps [simp del]

lemma decodeEventOutput_manifest_event_empty:
  assumes "event \<noteq> ''builtin.Log''" and "getEventElement E event = Inr (Some el)"
    and "logData = [] \<or> logData = ''0x''"
  shows "decodeEventOutput E event logData = Inr JNull"
  using assms by (auto simp: decodeEventOutput_def bindE_def)

text \<open>
  C8.  For the reserved name \<open>builtin.Log\<close> the method returns before the guard on
  empty log data: whatever the log data, the result is what the external decoder
  makes of the decoded bytes under the fixed log schema.  With a decoder that rejects
  input ending before the fields of the schema are read, both forms of empty log
  data raise its error, where an event of the manifest gives \<open>null\<close>.
\<close>

theorem decodeEventOutput_builtin_log_unguarded:
  "decodeEventOutput E ''builtin.Log'' logData
     = bindE (hexToBytes E logData) (\<lambda>b. depolorize E b (builtInLogEventSchema E))
   \<and> decodeEventOutput referenceCoderDeps ''builtin.Log'' ''0x''
       = Inl (Error ''insufficient data in wire for decode'')
   \<and> decodeEventOutput referenceCoderDeps ''builtin.Log'' ''''
       = Inl (Error ''insufficient data in wire for decode'')
   \<and> decodeEventOutput referenceCoderDeps ''Transfer'' ''0x'' = Inr JNull"
proof -
  have "decodeEventOutput E ''builtin.Log'' logData
     = bindE (hexToBytes E logData) (\<lambda>b. depolorize E b (builtInLogEventSchema E))"
    by (simp add: decodeEventOutput_def)
  moreover have "decodeEventOutput referenceCoderDeps ''builtin.Log'' ''0x''
       = Inl (Error ''insufficient data in wire for decode'')"
    by code_simp
  moreover have "decodeEventOutput referenceCoderDeps ''builtin.Log'' ''''
       = Inl (Error ''insufficient data in wire for decode'')"
    by code_simp
  moreover have "decodeEventOutput referenceCoderDeps ''Transfer'' ''0x'' = Inr JNull"
    by code_simp
  ultimately show ?thesis by blast
qed

lemma decodeArguments_absent:
  assumes "accepts r = None"
  shows "decodeArguments E (ByValue r) calldata =
           bindE (parseFields E []) (\<lambda>schema.
           bindE (hexToBytes E calldata) (\<lambda>b.
           bindE (depolorize E b schema) (\<lambda>decodedCalldata.
             Inl (TypeError ''Cannot read properties of undefined (reading map)''))))"
  using assms by (simp add: decodeArguments_def acceptsOf_def bindE_def)

text \<open>
  C10.  With a routine object whose \<open>accepts\<close> is absent, \<open>decodeArguments\<close> never
  returns: it resolves the schema of the empty field list, decodes the calldata and
  then throws a \<open>TypeError\<close> at \<open>fields.map\<close> (or throws earlier, if resolving or
  decoding throws).  With \<open>accepts\<close> present and empty it returns \<open>null\<close> before
  anything is decoded.
\<close>

theorem decodeArguments_absent_accepts_throws:
  "(accepts r = None \<longrightarrow>
      (\<exists>e. decodeArguments E (ByValue r) calldata = Inl e)
      \<and> (\<forall>schema b d.
            parseFields E [] = Inr schema \<and> hexToBytes E calldata = Inr b
            \<and> depolorize E b schema = Inr d \<longrightarrow>
            decodeArguments E (ByValue r) calldata
              = Inl (TypeError ''Cannot read properties of undefined (reading map)'')))
   \<and> (accepts r = Some [] \<longrightarrow> decodeArguments E (ByValue r) calldata = Inr JNull)"
proof (intro conjI impI allI)
  assume a: "accepts r = None"
  show "\<exists>e. decodeArguments E (ByValue r) calldata = Inl e"
    unfolding decodeArguments_absent[OF a]
    by (simp add: bindE_def split: sum.splits)
next
  fix schema b d
  assume a: "accepts r = None"
    and h: "parseFields E [] = Inr schema \<and> hexToBytes E calldata = Inr b
            \<and> depolorize E b schema = Inr d"
  show "decodeArguments E (ByValue r) calldata
          = Inl (TypeError ''Cannot read properties of undefined (reading map)'')"
    unfolding decodeArguments_absent[OF a] using h by (simp add: bindE_def)
next
  assume "accepts r = Some []"
  then show "decodeArguments E (ByValue r) calldata = Inr JNull"
    by (simp add: decodeArguments_def acceptsOf_def bindE_def)
qed

theorem decodeArguments_absent_accepts_throws_witness:
  "accepts \<lparr>name = ''seed'', accepts = None, returns = None\<rparr> = None
   \<and> decodeArguments referenceCoderDeps
        (ByValue \<lparr>name = ''seed'', accepts = None, returns = None\<rparr>) ''0x''
       = Inl (TypeError ''Cannot read properties of undefined (reading map)'')
   \<and> accepts \<lparr>name = ''seed'', accepts = Some [], returns = None\<rparr> = Some []
   \<and> decodeArguments referenceCoderDeps
        (ByValue \<lparr>name = ''seed'', accepts = Some [], returns = None\<rparr>) ''0x''
       = Inr JNull"
proof -
  let ?r = "\<lparr>name = ''seed'', accepts = None, returns = None\<rparr>"
  let ?r' = "\<lparr>name = ''seed'', accepts = Some [], returns = None\<rparr>"
  have a: "accepts ?r = None" and a': "accepts ?r' = Some []"
    by simp_all
  have h: "parseFields referenceCoderDeps [] = Inr (Schema ''struct'' (Some []))
           \<and> hexToBytes referenceCoderDeps ''0x'' = Inr []
           \<and> depolorize referenceCoderDeps [] (Schema ''struct'' (Some [])) = Inr (JObject [])"
    by code_simp
  have "decodeArguments referenceCoderDeps (ByValue ?r) ''0x''
          = Inl (TypeError ''Cannot read properties of undefined (reading map)'')"
    using decodeArguments_absent_accepts_throws[of ?r referenceCoderDeps "''0x''"] a h
    by blast
  moreover have "decodeArguments referenceCoderDeps (ByValue ?r') ''0x'' = Inr JNull"
    using decodeArguments_absent_accepts_throws[of ?r' referenceCoderDeps "''0x''"] a'
    by blast
  ultimately show ?thesis using a a' by blast
qed

section \<open>Schema nodes that parseCalldata leaves as they are\<close>

lemma noStruct_kind: "noStruct s \<Longrightarrow> kind s \<noteq> ''struct''"
  by (cases s) simp

lemma list_all_map_of:
  "list_all (\<lambda>e. P (snd e)) fs \<Longrightarrow> map_of fs l = Some c \<Longrightarrow> P c"
  by (induction fs) (auto split: if_splits)

lemma noStruct_field:
  "noStruct s \<Longrightarrow> schema_fields s = Some fs \<Longrightarrow> map_of fs l = Some c \<Longrightarrow> noStruct c"
  by (cases s) (auto dest: list_all_map_of)

lemma schema_rebuild: "schema_fields s = Some fs \<Longrightarrow> Schema (kind s) (Some fs) = s"
  by (cases s) simp

lemma parseArray_keeps:
  assumes "\<And>x c b c' y. x \<in> set xs \<Longrightarrow> noStruct c \<Longrightarrow> parseCalldata E c x b = Inr (c', y) \<Longrightarrow> c' = c"
  shows "noStruct s \<Longrightarrow> parseArray E t s xs = Inr (s', ys) \<Longrightarrow> s' = s"
  using assms
proof (induction xs arbitrary: ys)
  case Nil
  then show ?case by simp
next
  case (Cons x xs)
  from Cons.prems(2) obtain s1 y ys2 where
    p: "parseCalldata E s x (xs = []) = Inr (s1, y)"
    and r: "parseArray E t s1 xs = Inr (s', ys2)"
    by (auto simp: bindE_Inr)
  have s1: "s1 = s" by (rule Cons.prems(3)[OF _ Cons.prems(1) p]) simp
  have step: "\<And>x c b c' y. x \<in> set xs \<Longrightarrow> noStruct c \<Longrightarrow> parseCalldata E c x b = Inr (c', y) \<Longrightarrow> c' = c"
    by (rule Cons.prems(3)) simp_all
  show ?case by (rule Cons.IH[OF Cons.prems(1) r[unfolded s1]]) (rule step)
qed

lemma parseMap_keeps:
  assumes "\<And>k x c b c' y. (k, x) \<in> set es \<Longrightarrow> noStruct c \<Longrightarrow>
             (parseCalldata E c k b = Inr (c', y) \<longrightarrow> c' = c)
             \<and> (parseCalldata E c x b = Inr (c', y) \<longrightarrow> c' = c)"
  shows "noStruct ks \<Longrightarrow> (\<forall>vs. vso = Some vs \<longrightarrow> noStruct vs) \<Longrightarrow>
         parseMap E ks vso es m = Inr (ks', vso', m') \<Longrightarrow> ks' = ks \<and> vso' = vso"
  using assms
proof (induction es arbitrary: m)
  case Nil
  then show ?case by simp
next
  case (Cons e es)
  obtain k v where e: "e = (k, v)" by (cases e)
  from Cons.prems(3) e obtain ks1 k1 vs vs1 v1 where
    pk: "parseCalldata E ks k (es = []) = Inr (ks1, k1)"
    and vso: "vso = Some vs"
    and pv: "parseCalldata E vs v (es = []) = Inr (vs1, v1)"
    and r: "parseMap E ks1 (Some vs1) es (JMap_set m k1 v1) = Inr (ks', vso', m')"
    by (auto simp: bindE_Inr split: option.splits)
  have mem: "(k, v) \<in> set (e # es)" using e by simp
  have ks1: "ks1 = ks" using Cons.prems(4)[OF mem Cons.prems(1)] pk by blast
  have nv: "noStruct vs" using Cons.prems(2) vso by simp
  have vs1: "vs1 = vs" using Cons.prems(4)[OF mem nv] pv by blast
  have step: "\<And>k x c b c' y. (k, x) \<in> set es \<Longrightarrow> noStruct c \<Longrightarrow>
             (parseCalldata E c k b = Inr (c', y) \<longrightarrow> c' = c)
             \<and> (parseCalldata E c x b = Inr (c', y) \<longrightarrow> c' = c)"
    by (rule Cons.prems(4)) simp_all
  have r': "parseMap E ks vso es (JMap_set m k1 v1) = Inr (ks', vso', m')"
    using r ks1 vs1 vso by simp
  show ?case
    by (rule Cons.IH[OF Cons.prems(1) Cons.prems(2) r']) (rule step)
qed

lemma parseCalldata_keeps_step:
  assumes ns: "noStruct s"
    and p: "parseCalldata E s v u = Inr (s', v')"
    and el: "\<And>xs x c b c' y. mapElements v = Some xs \<Longrightarrow> x \<in> set xs \<Longrightarrow> noStruct c \<Longrightarrow>
               parseCalldata E c x b = Inr (c', y) \<Longrightarrow> c' = c"
    and en: "\<And>es k x c b c' y. entriesOf v = Some es \<Longrightarrow> (k, x) \<in> set es \<Longrightarrow> noStruct c \<Longrightarrow>
               (parseCalldata E c k b = Inr (c', y) \<longrightarrow> c' = c)
               \<and> (parseCalldata E c x b = Inr (c', y) \<longrightarrow> c' = c)"
  shows "s' = s"
proof -
  from ns have k: "kind s \<noteq> ''struct''" by (rule noStruct_kind)
  consider "kind s = ''string''" | "kind s = ''bytes''" | "kind s = ''array''" | "kind s = ''map''"
    | "kind s \<noteq> ''string''" "kind s \<noteq> ''bytes''" "kind s \<noteq> ''array''" "kind s \<noteq> ''map''"
    by blast
  then show ?thesis
  proof cases
    case 1
    with p show ?thesis
      by (subst (asm) parseCalldata.simps) auto
  next
    case 2
    with p show ?thesis
      by (subst (asm) parseCalldata.simps) (auto simp: bindE_Inr split: val.splits)
  next
    case 3
    show ?thesis
    proof (cases "\<exists>fs vs. schema_fields s = Some fs \<and> map_of fs ''values'' = Some vs
                    \<and> kind vs \<in> set parsableKinds")
      case True
      then obtain fs vs where fs: "schema_fields s = Some fs"
        and vs: "map_of fs ''values'' = Some vs" and pk: "kind vs \<in> set parsableKinds"
        by blast
      from p 3 fs vs pk obtain xs vs' ys where
        xs: "mapElements v = Some xs"
        and r: "parseArray E (isTyped v) vs xs = Inr (vs', ys)"
        and s': "s' = Schema (kind s) (Some (AList.update ''values'' vs' fs))"
        by (subst (asm) parseCalldata.simps) (auto simp: bindE_Inr split: option.splits)
      have nv: "noStruct vs" by (rule noStruct_field[OF ns fs vs])
      have "vs' = vs"
        by (rule parseArray_keeps[OF _ nv r]) (rule el[OF xs])
      with s' vs have "s' = Schema (kind s) (Some fs)" by (simp add: update_triv)
      then show ?thesis by (simp add: schema_rebuild[OF fs])
    next
      case False
      with p 3 show ?thesis
        by (subst (asm) parseCalldata.simps) (auto simp: bindE_Inr split: option.splits if_splits)
    qed
  next
    case 4
    show ?thesis
    proof (cases "\<exists>fs ks. schema_fields s = Some fs \<and> map_of fs ''keys'' = Some ks
                    \<and> (kind ks \<in> set parsableKinds
                       \<or> (case map_of fs ''values'' of None \<Rightarrow> False
                           | Some vs \<Rightarrow> kind vs \<in> set parsableKinds))")
      case True
      then obtain fs ks where fs: "schema_fields s = Some fs"
        and ks: "map_of fs ''keys'' = Some ks"
        and pk: "kind ks \<in> set parsableKinds
                 \<or> (case map_of fs ''values'' of None \<Rightarrow> False
                     | Some vs \<Rightarrow> kind vs \<in> set parsableKinds)"
        by blast
      from p 4 fs ks pk obtain es ks' vso m where
        es: "entriesOf v = Some es"
        and r: "parseMap E ks (map_of fs ''values'') es [] = Inr (ks', vso, m)"
        and s': "s' = Schema (kind s)
                        (Some (case vso of
                                 None \<Rightarrow> AList.update ''keys'' ks' fs
                               | Some vs' \<Rightarrow>
                                   AList.update ''values'' vs' (AList.update ''keys'' ks' fs)))"
        by (subst (asm) parseCalldata.simps) (auto simp: bindE_Inr split: option.splits)
      have nk: "noStruct ks" by (rule noStruct_field[OF ns fs ks])
      have nv: "\<forall>vs. map_of fs ''values'' = Some vs \<longrightarrow> noStruct vs"
        using noStruct_field[OF ns fs] by blast
      have keep: "ks' = ks \<and> vso = map_of fs ''values''"
        by (rule parseMap_keeps[OF _ nk nv r]) (rule en[OF es])
      have "s' = Schema (kind s) (Some fs)"
        using s' keep ks by (auto simp: update_triv split: option.splits)
      then show ?thesis by (simp add: schema_rebuild[OF fs])
    next
      case False
      with p 4 show ?thesis
        by (subst (asm) parseCalldata.simps) (auto simp: bindE_Inr split: option.splits if_splits)
    qed
  next
    case 5
    with p k show ?thesis
      by (subst (asm) parseCalldata.simps) auto
  qed
qed

lemma parseCalldata_keeps_leaf:
  assumes "parseCalldata E s v u = Inr (s', v')" and "noStruct s"
    and "mapElements v = None" and "entriesOf v = None"
  shows "s' = s"
  by (rule parseCalldata_keeps_step[OF assms(2) assms(1)]) (simp_all add: assms(3,4))

lemma parseCalldata_noStruct:
  "noStruct s \<Longrightarrow> parseCalldata E s v u = Inr (s', v') \<Longrightarrow> s' = s"
proof (induction v arbitrary: s u s' v')
  case (JArray xs)
  show ?case
  proof (rule parseCalldata_keeps_step[OF JArray.prems])
    fix ys x c b c' y
    assume "mapElements (JArray xs) = Some ys" "x \<in> set ys" "noStruct c"
      "parseCalldata E c x b = Inr (c', y)"
    then show "c' = c" using JArray.IH by (auto simp: mapElements_def)
  next
    fix es k x c b c' y
    assume es: "entriesOf (JArray xs) = Some es" and m: "(k, x) \<in> set es" and c: "noStruct c"
    from es m have x: "x \<in> set xs" and k: "\<exists>n. k = JNumber n"
      by (auto simp: entriesOf_def in_set_zip)
    from k obtain n where n: "k = JNumber n" by blast
    have "parseCalldata E c k b = Inr (c', y) \<longrightarrow> c' = c"
      unfolding n
      by (auto elim: parseCalldata_keeps_leaf[OF _ c] simp: mapElements_def entriesOf_def)
    moreover have "parseCalldata E c x b = Inr (c', y) \<longrightarrow> c' = c"
      using JArray.IH[OF x c] by blast
    ultimately show "(parseCalldata E c k b = Inr (c', y) \<longrightarrow> c' = c)
               \<and> (parseCalldata E c x b = Inr (c', y) \<longrightarrow> c' = c)" by blast
  qed
next
  case (JMap es)
  show ?case
  proof (rule parseCalldata_keeps_step[OF JMap.prems])
    fix ys x c b c' y
    assume "mapElements (JMap es) = Some ys"
    then show "c' = c" by (simp add: mapElements_def)
  next
    fix es' k x c b c' y
    assume es': "entriesOf (JMap es) = Some es'" and m: "(k, x) \<in> set es'" and c: "noStruct c"
    from es' m have m': "(k, x) \<in> set es" by (simp add: entriesOf_def)
    have "parseCalldata E c k b = Inr (c', y) \<longrightarrow> c' = c"
      using JMap.IH(1)[OF m' _ c, of k] by simp
    moreover have "parseCalldata E c x b = Inr (c', y) \<longrightarrow> c' = c"
      using JMap.IH(2)[OF m' _ c, of x] by simp
    ultimately show "(parseCalldata E c k b = Inr (c', y) \<longrightarrow> c' = c)
               \<and> (parseCalldata E c x b = Inr (c', y) \<longrightarrow> c' = c)" by blast
  qed
next
  case (JBytes bs)
  have leaf: "c' = c" if "noStruct c" "parseCalldata E c (JNumber n) b = Inr (c', y)"
    for n c b c' y
    by (rule parseCalldata_keeps_leaf[OF that(2) that(1)])
       (simp_all add: mapElements_def entriesOf_def)
  show ?case
  proof (rule parseCalldata_keeps_step[OF JBytes.prems])
    fix ys x c b c' y
    assume "mapElements (JBytes bs) = Some ys" "x \<in> set ys" "noStruct c"
      "parseCalldata E c x b = Inr (c', y)"
    then show "c' = c" using leaf by (auto simp: mapElements_def byteNumber_def)
  next
    fix es k x c b c' y
    assume es: "entriesOf (JBytes bs) = Some es" and m: "(k, x) \<in> set es" and c: "noStruct c"
    from es m obtain n n' where "k = JNumber n" "x = JNumber n'"
      by (auto simp: entriesOf_def in_set_zip byteNumber_def)
    then show "(parseCalldata E c k b = Inr (c', y) \<longrightarrow> c' = c)
               \<and> (parseCalldata E c x b = Inr (c', y) \<longrightarrow> c' = c)"
      using leaf[OF c] by blast
  qed
next
  case JUndefined
  show ?case
    by (rule parseCalldata_keeps_leaf[OF JUndefined(2,1)]) (simp_all add: mapElements_def entriesOf_def)
next
  case JNull
  show ?case
    by (rule parseCalldata_keeps_leaf[OF JNull(2,1)]) (simp_all add: mapElements_def entriesOf_def)
next
  case (JBool x)
  show ?case
    by (rule parseCalldata_keeps_leaf[OF JBool(2,1)]) (simp_all add: mapElements_def entriesOf_def)
next
  case (JNumber x)
  show ?case
    by (rule parseCalldata_keeps_leaf[OF JNumber(2,1)]) (simp_all add: mapElements_def entriesOf_def)
next
  case (JBigInt x)
  show ?case
    by (rule parseCalldata_keeps_leaf[OF JBigInt(2,1)]) (simp_all add: mapElements_def entriesOf_def)
next
  case (JString x)
  show ?case
    by (rule parseCalldata_keeps_leaf[OF JString(2,1)]) (simp_all add: mapElements_def entriesOf_def)
next
  case (JObject x)
  show ?case
    by (rule parseCalldata_keeps_leaf[OF JObject.prems(2,1)]) (simp_all add: mapElements_def entriesOf_def)
qed

lemma parseStructFields_keeps:
  "list_all (\<lambda>e. noStruct (snd e)) fs \<Longrightarrow> parseStructFields E t fs es = Inr (fs', es') \<Longrightarrow> fs' = fs"
proof (induction es arbitrary: es')
  case Nil
  then show ?case by simp
next
  case (Cons e es)
  obtain key v where e: "e = (key, v)" by (cases e)
  from Cons.prems(2) e obtain c c' v' fs1 es1 where
    c: "map_of fs key = Some c"
    and p: "parseCalldata E c v False = Inr (c', v')"
    and r: "parseStructFields E t (AList.update key c' fs) es = Inr (fs1, es1)"
    and f: "fs' = fs1"
    by (auto simp: bindE_Inr split: option.splits)
  from Cons.prems(1) c have "noStruct c"
    by (rule list_all_map_of)
  from parseCalldata_noStruct[OF this p] have "c' = c" .
  with c have "AList.update key c' fs = fs" by (simp add: update_triv)
  with r f have "parseStructFields E t fs es = Inr (fs', es1)" by simp
  from Cons.IH[OF Cons.prems(1) this] show ?case .
qed

section \<open>The schema rewrite of parseCalldata\<close>

lemma map_sum_snd_Inr: "map_sum id snd m = Inr d \<Longrightarrow> \<exists>s. m = Inr (s, d)"
  by (cases m) auto

lemma parseCalldata_document:
  "parseCalldata E (Schema ''document'' fo) arg u = Inr (Schema ''document'' fo, arg)"
  by (subst parseCalldata.simps) simp

lemma parseCalldata_struct_unfold:
  "kind s = ''struct'' \<Longrightarrow>
   parseCalldata E s arg u =
     (case stringHead arg of
        Some c \<Rightarrow>
          (case schema_fields s of
             None \<Rightarrow> Inl (TypeError ''Cannot read properties of undefined'')
           | Some fs \<Rightarrow>
               (case map_of fs ''0'' of
                  None \<Rightarrow> Inl (TypeError ''Cannot read properties of undefined (reading kind)'')
                | Some child \<Rightarrow>
                    bindE (parseCalldata E child (JString [c]) False) (\<lambda>r.
                      Inl (TypeError ''Cannot assign to read only property of string''))))
      | None \<Rightarrow>
          (case ownEntries arg of
             None \<Rightarrow> Inl (TypeError ''Cannot convert undefined or null to object'')
           | Some entries \<Rightarrow>
               (case schema_fields s of
                  None \<Rightarrow> Inl (TypeError ''Cannot read properties of undefined'')
                | Some fs \<Rightarrow>
                    bindE (parseStructFields E (isTyped arg) fs entries) (\<lambda>(fs', entries').
                    bindE (reconstructSchema (Schema (kind s) (Some fs'))) (\<lambda>copy.
                    bindE (documentEncode E (withEntries arg entries') copy) (\<lambda>doc.
                      Inr (if u then Schema ''document'' None
                           else Schema (kind s) (Some fs'),
                           doc_data doc)))))))"
  by (subst parseCalldata.simps) simp

lemma parseCalldata_struct_Inr:
  assumes "kind s = ''struct''" and "parseCalldata E s arg u = Inr (s', v)"
  shows "\<exists>fs entries fs' entries' copy doc.
           schema_fields s = Some fs \<and> ownEntries arg = Some entries
           \<and> parseStructFields E (isTyped arg) fs entries = Inr (fs', entries')
           \<and> reconstructSchema (Schema ''struct'' (Some fs')) = Inr copy
           \<and> documentEncode E (withEntries arg entries') copy = Inr doc
           \<and> v = doc_data doc
           \<and> s' = (if u then Schema ''document'' None else Schema ''struct'' (Some fs'))"
  using assms(2) unfolding parseCalldata_struct_unfold[OF assms(1)]
  by (cases u) (auto simp: bindE_Inr assms(1) split: option.splits)

lemma parseCalldata_struct_True:
  assumes "kind s = ''struct''" and "parseCalldata E s arg True = Inr (s', v)"
  shows "s' = Schema ''document'' None"
  using parseCalldata_struct_Inr[OF assms] by auto

lemma parseCalldata_struct_False:
  assumes "kind s = ''struct''" and "parseCalldata E s arg False = Inr (s', v)"
  shows "\<exists>fs entries fs' entries'.
           schema_fields s = Some fs \<and> ownEntries arg = Some entries
           \<and> parseStructFields E (isTyped arg) fs entries = Inr (fs', entries')
           \<and> s' = Schema ''struct'' (Some fs')"
  using parseCalldata_struct_Inr[OF assms] by auto

lemma parseCalldata_other_kind:
  assumes "kind s \<noteq> ''struct''" and "parseCalldata E s arg u = Inr (s', v)"
  shows "kind s' = kind s"
proof -
  consider "kind s = ''string''" | "kind s = ''bytes''" | "kind s = ''array''" | "kind s = ''map''"
    | "kind s \<noteq> ''string''" "kind s \<noteq> ''bytes''" "kind s \<noteq> ''array''" "kind s \<noteq> ''map''"
    by blast
  then show ?thesis
  proof cases
    case 1
    with assms(2) show ?thesis
      by (subst (asm) parseCalldata.simps) auto
  next
    case 2
    with assms(2) show ?thesis
      by (subst (asm) parseCalldata.simps) (auto simp: bindE_Inr split: val.splits)
  next
    case 3
    with assms(2) show ?thesis
      by (subst (asm) parseCalldata.simps)
         (auto simp: bindE_Inr split: option.splits if_splits)
  next
    case 4
    with assms(2) show ?thesis
      by (subst (asm) parseCalldata.simps)
         (auto simp: bindE_Inr split: option.splits if_splits)
  next
    case 5
    with assms show ?thesis
      by (subst (asm) parseCalldata.simps) auto
  qed
qed

lemma parseCalldata_False_kind:
  assumes "parseCalldata E s arg False = Inr (s', v)"
  shows "kind s' = kind s"
proof (cases "kind s = ''struct''")
  case True
  from parseCalldata_struct_False[OF True assms] True show ?thesis by auto
next
  case False
  from parseCalldata_other_kind[OF False assms] show ?thesis .
qed

lemma fieldKinds_update:
  "map_of fs key = Some c \<Longrightarrow> kind c' = kind c \<Longrightarrow>
   fieldKinds (AList.update key c' fs) = fieldKinds fs"
  by (induction fs) (auto simp: fieldKinds_def split: if_splits)

lemma parseStructFields_fieldKinds:
  "parseStructFields E t fs entries = Inr (fs', entries') \<Longrightarrow> fieldKinds fs' = fieldKinds fs"
proof (induction entries arbitrary: fs entries')
  case Nil
  then show ?case by simp
next
  case (Cons e entries)
  obtain key v where e: "e = (key, v)" by (cases e)
  from Cons.prems e obtain c c' v' es1 where
    c: "map_of fs key = Some c"
    and p: "parseCalldata E c v False = Inr (c', v')"
    and r: "parseStructFields E t (AList.update key c' fs) entries = Inr (fs', es1)"
    by (auto simp: bindE_Inr split: option.splits)
  have "fieldKinds fs' = fieldKinds (AList.update key c' fs)"
    by (rule Cons.IH[OF r])
  also have "\<dots> = fieldKinds fs"
    by (rule fieldKinds_update[OF c parseCalldata_False_kind[OF p]])
  finally show ?case .
qed

lemma reconstructSchema_retypes:
  assumes "reconstructSchema (Schema k (Some fs)) = Inr copy"
  shows "\<exists>cfs. copy = Schema k (Some cfs)
           \<and> fieldKinds cfs = map (\<lambda>e. (fst e, retyped (snd e))) (fieldKinds fs)"
  using assms
  by (auto simp: reconstructSchema_def fieldKinds_def retyped_def split_beta)

lemma parseArray_last_struct:
  "kind s = ''struct'' \<Longrightarrow> xs \<noteq> [] \<Longrightarrow> parseArray E t s xs = Inr (s', ys) \<Longrightarrow>
   s' = Schema ''document'' None"
proof (induction xs arbitrary: s ys)
  case Nil
  then show ?case by simp
next
  case (Cons x xs)
  from Cons.prems(3) obtain s1 y ys2 where
    p: "parseCalldata E s x (xs = []) = Inr (s1, y)"
    and r: "parseArray E t s1 xs = Inr (s', ys2)"
    by (auto simp: bindE_Inr)
  show ?case
  proof (cases "xs = []")
    case True
    with p Cons.prems(1) have "s1 = Schema ''document'' None"
      by (auto dest: parseCalldata_struct_True)
    with True r show ?thesis by simp
  next
    case False
    with p have "kind s1 = kind s" by (auto dest: parseCalldata_False_kind)
    with Cons.prems(1) have "kind s1 = ''struct''" by simp
    from Cons.IH[OF this False r] show ?thesis .
  qed
qed

lemma parseMap_last_struct_value:
  "kind vs = ''struct'' \<Longrightarrow> entries \<noteq> [] \<Longrightarrow>
   parseMap E ks (Some vs) entries m = Inr (ks', vso', m') \<Longrightarrow>
   vso' = Some (Schema ''document'' None)"
proof (induction entries arbitrary: ks vs m)
  case Nil
  then show ?case by simp
next
  case (Cons e entries)
  obtain k v where e: "e = (k, v)" by (cases e)
  from Cons.prems(3) e obtain ks1 k1 vs1 v1 where
    pv: "parseCalldata E vs v (entries = []) = Inr (vs1, v1)"
    and r: "parseMap E ks1 (Some vs1) entries (JMap_set m k1 v1) = Inr (ks', vso', m')"
    by (auto simp: bindE_Inr)
  show ?case
  proof (cases "entries = []")
    case True
    with pv Cons.prems(1) have "vs1 = Schema ''document'' None"
      by (auto dest: parseCalldata_struct_True)
    with True r show ?thesis by simp
  next
    case False
    with pv have "kind vs1 = kind vs" by (auto dest: parseCalldata_False_kind)
    with Cons.prems(1) have "kind vs1 = ''struct''" by simp
    from Cons.IH[OF this False r] show ?thesis .
  qed
qed

lemma parseMap_last_struct_key:
  "kind ks = ''struct'' \<Longrightarrow> entries \<noteq> [] \<Longrightarrow>
   parseMap E ks vso entries m = Inr (ks', vso', m') \<Longrightarrow>
   ks' = Schema ''document'' None"
proof (induction entries arbitrary: ks vso m)
  case Nil
  then show ?case by simp
next
  case (Cons e entries)
  obtain k v where e: "e = (k, v)" by (cases e)
  from Cons.prems(3) e obtain ks1 k1 vs1 v1 where
    pk: "parseCalldata E ks k (entries = []) = Inr (ks1, k1)"
    and r: "parseMap E ks1 (Some vs1) entries (JMap_set m k1 v1) = Inr (ks', vso', m')"
    by (auto simp: bindE_Inr split: option.splits)
  show ?case
  proof (cases "entries = []")
    case True
    with pk Cons.prems(1) have "ks1 = Schema ''document'' None"
      by (auto dest: parseCalldata_struct_True)
    with True r show ?thesis by simp
  next
    case False
    with pk have "kind ks1 = kind ks" by (auto dest: parseCalldata_False_kind)
    with Cons.prems(1) have "kind ks1 = ''struct''" by simp
    from Cons.IH[OF this False r] show ?thesis .
  qed
qed

lemma argumentOfField_struct:
  assumes "fieldSchema (fst st) (label f) = Some c" and "kind c = ''struct''"
    and "argumentOfField E args st f = Inr st'"
  shows "fieldSchema (fst st') (label f) = Some (Schema ''document'' None)"
proof -
  from assms(1) obtain sfs where sfs: "schema_fields (fst st) = Some sfs"
    and c: "map_of sfs (label f) = Some c"
    by (auto simp: fieldSchema_def split: option.splits)
  from assms(3) sfs c obtain c' v where
    p: "parseCalldata E c (jsIndex args (slot f)) True = Inr (c', v)"
    and st': "fst st' = Schema (kind (fst st)) (Some (AList.update (label f) c' sfs))"
    by (auto simp: argumentOfField_def bindE_Inr)
  from parseCalldata_struct_True[OF assms(2) p] st' show ?thesis
    by (simp add: fieldSchema_def update_conv')
qed

lemma parseCalldata_flatStruct:
  assumes "flatStruct s" and "parseCalldata E s arg False = Inr (s', v)"
  shows "s' = s"
proof -
  from assms(1) obtain fs0 where k: "kind s = ''struct''" and fs0: "schema_fields s = Some fs0"
    and flat: "list_all (\<lambda>e. noStruct (snd e)) fs0"
    by (auto simp: flatStruct_def split: option.splits)
  from parseCalldata_struct_False[OF k assms(2)] fs0 obtain entries fs' entries' where
    r: "parseStructFields E (isTyped arg) fs0 entries = Inr (fs', entries')"
    and s': "s' = Schema ''struct'' (Some fs')"
    by auto
  from parseStructFields_keeps[OF flat r] s' k show ?thesis
    using schema_rebuild[OF fs0] by simp
qed


text \<open>
  C7, as the code has it.  Whenever the call returns:
  a struct node processed with \<open>updateType\<close> true comes back as a \<open>document\<close> node
  without \<open>fields\<close>, and this is what happens to the node of a top-level field of
  \<open>encodeArguments\<close>, to the element node of an array after its last element and to
  the key and value nodes of a map after its last entry; a \<open>document\<close> node without
  fields passes every later value through untouched.
  A struct node processed with \<open>updateType\<close> false stays a struct node with the same
  labels, each field keeping its kind, and it comes back exactly as it was when none
  of its fields has a struct node in it.
  In both cases the value returned is the raw data of the sub-document that
  \<open>documentEncode\<close> makes under a copy of the node as the fields left it, and in that
  copy alone every field of kind \<open>struct\<close> is retyped to \<open>document\<close>.
  What the statement does not promise, because it is false, is that a struct node
  processed with \<open>updateType\<close> false is left as it was in every case: a struct node
  below one of its array or map fields is processed with \<open>updateType\<close> true at the
  last element and is rewritten.
\<close>

theorem parseCalldata_struct_node_rewrite:
  "(kind s = ''struct'' \<and> parseCalldata E s arg True = Inr (s', v)
      \<longrightarrow> s' = Schema ''document'' None)
   \<and> (kind s = ''struct'' \<and> parseCalldata E s arg False = Inr (s'', w)
      \<longrightarrow> kind s'' = ''struct''
          \<and> (\<exists>fs fs'. schema_fields s = Some fs \<and> schema_fields s'' = Some fs'
                \<and> fieldKinds fs' = fieldKinds fs))
   \<and> (flatStruct s \<and> parseCalldata E s arg False = Inr (s'', w) \<longrightarrow> s'' = s)
   \<and> (kind s = ''struct'' \<and> parseCalldata E s arg u = Inr (t, d)
      \<longrightarrow> (\<exists>fs fs' arg' copy cfs doc.
             schema_fields s = Some fs \<and> fieldKinds fs' = fieldKinds fs
             \<and> (\<not> u \<longrightarrow> t = Schema ''struct'' (Some fs'))
             \<and> reconstructSchema (Schema ''struct'' (Some fs')) = Inr copy
             \<and> copy = Schema ''struct'' (Some cfs)
             \<and> fieldKinds cfs = map (\<lambda>e. (fst e, retyped (snd e))) (fieldKinds fs')
             \<and> documentEncode E arg' copy = Inr doc
             \<and> d = doc_data doc))
   \<and> parseCalldata E (Schema ''document'' None) arg u = Inr (Schema ''document'' None, arg)
   \<and> (fieldSchema (fst st) (label f) = Some s \<and> kind s = ''struct''
       \<and> argumentOfField E args st f = Inr st'
      \<longrightarrow> fieldSchema (fst st') (label f) = Some (Schema ''document'' None))
   \<and> (kind s = ''struct'' \<and> xs \<noteq> [] \<and> parseArray E typed s xs = Inr (sa, ys)
      \<longrightarrow> sa = Schema ''document'' None)
   \<and> (kind s = ''struct'' \<and> entries \<noteq> [] \<and> parseMap E ks (Some s) entries m = Inr (ks', vso', m')
      \<longrightarrow> vso' = Some (Schema ''document'' None))
   \<and> (kind s = ''struct'' \<and> entries \<noteq> [] \<and> parseMap E s vso entries m = Inr (sk, vso'', m'')
      \<longrightarrow> sk = Schema ''document'' None)"
proof (intro conjI impI)
  assume "kind s = ''struct'' \<and> parseCalldata E s arg True = Inr (s', v)"
  then show "s' = Schema ''document'' None"
    using parseCalldata_struct_True by blast
next
  assume a: "kind s = ''struct'' \<and> parseCalldata E s arg False = Inr (s'', w)"
  then obtain fs entries fs' entries' where
    fs: "schema_fields s = Some fs"
    and r: "parseStructFields E (isTyped arg) fs entries = Inr (fs', entries')"
    and s'': "s'' = Schema ''struct'' (Some fs')"
    using parseCalldata_struct_False by blast
  show "kind s'' = ''struct''" using s'' by simp
  show "\<exists>fs fs'. schema_fields s = Some fs \<and> schema_fields s'' = Some fs'
          \<and> fieldKinds fs' = fieldKinds fs"
    using fs s'' parseStructFields_fieldKinds[OF r] by simp
next
  assume "flatStruct s \<and> parseCalldata E s arg False = Inr (s'', w)"
  then show "s'' = s" using parseCalldata_flatStruct by blast
next
  assume a: "kind s = ''struct'' \<and> parseCalldata E s arg u = Inr (t, d)"
  then have k: "kind s = ''struct''" and p: "parseCalldata E s arg u = Inr (t, d)"
    by simp_all
  from parseCalldata_struct_Inr[OF k p] obtain fs entries fs' entries' copy doc where
    fs: "schema_fields s = Some fs"
    and r: "parseStructFields E (isTyped arg) fs entries = Inr (fs', entries')"
    and rc: "reconstructSchema (Schema ''struct'' (Some fs')) = Inr copy"
    and de: "documentEncode E (withEntries arg entries') copy = Inr doc"
    and d: "d = doc_data doc"
    and t: "t = (if u then Schema ''document'' None else Schema ''struct'' (Some fs'))"
    by blast
  from reconstructSchema_retypes[OF rc] obtain cfs where
    copy: "copy = Schema ''struct'' (Some cfs)"
    and cfs: "fieldKinds cfs = map (\<lambda>e. (fst e, retyped (snd e))) (fieldKinds fs')"
    by blast
  have fk: "fieldKinds fs' = fieldKinds fs" by (rule parseStructFields_fieldKinds[OF r])
  have tu: "\<not> u \<longrightarrow> t = Schema ''struct'' (Some fs')" using t by simp
  from fs fk tu rc copy cfs de d
  show "\<exists>fs fs' arg' copy cfs doc.
             schema_fields s = Some fs \<and> fieldKinds fs' = fieldKinds fs
             \<and> (\<not> u \<longrightarrow> t = Schema ''struct'' (Some fs'))
             \<and> reconstructSchema (Schema ''struct'' (Some fs')) = Inr copy
             \<and> copy = Schema ''struct'' (Some cfs)
             \<and> fieldKinds cfs = map (\<lambda>e. (fst e, retyped (snd e))) (fieldKinds fs')
             \<and> documentEncode E arg' copy = Inr doc
             \<and> d = doc_data doc"
    by blast
next
  show "parseCalldata E (Schema ''document'' None) arg u = Inr (Schema ''document'' None, arg)"
    by (rule parseCalldata_document)
next
  assume "fieldSchema (fst st) (label f) = Some s \<and> kind s = ''struct''
          \<and> argumentOfField E args st f = Inr st'"
  then show "fieldSchema (fst st') (label f) = Some (Schema ''document'' None)"
    using argumentOfField_struct by blast
next
  assume "kind s = ''struct'' \<and> xs \<noteq> [] \<and> parseArray E typed s xs = Inr (sa, ys)"
  then show "sa = Schema ''document'' None"
    using parseArray_last_struct by blast
next
  assume "kind s = ''struct'' \<and> entries \<noteq> []
          \<and> parseMap E ks (Some s) entries m = Inr (ks', vso', m')"
  then show "vso' = Some (Schema ''document'' None)"
    using parseMap_last_struct_value by blast
next
  assume "kind s = ''struct'' \<and> entries \<noteq> [] \<and> parseMap E s vso entries m = Inr (sk, vso'', m'')"
  then show "sk = Schema ''document'' None"
    using parseMap_last_struct_key by blast
qed

text \<open>The struct node \<open>{who: string}\<close> and the value \<open>{who: "0xab"}\<close>, run through
  every position the statement names, and the struct node \<open>{inner: {who: string}}\<close>
  with the value \<open>{inner: {who: "0xab"}}\<close>, whose copy for \<open>documentEncode\<close> has the
  field \<open>inner\<close> retyped while the node itself comes back as it was.\<close>

theorem parseCalldata_struct_node_rewrite_witness:
  "parseCalldata referenceCoderDeps
      (Schema ''struct'' (Some [(''who'', Schema ''string'' None)]))
      (JObject [(''who'', JString ''0xab'')]) True
     = Inr (Schema ''document'' None, JObject [(''who'', JBytes [2, 97, 98])])
   \<and> flatStruct (Schema ''struct'' (Some [(''who'', Schema ''string'' None)]))
   \<and> parseCalldata referenceCoderDeps
      (Schema ''struct'' (Some [(''who'', Schema ''string'' None)]))
      (JObject [(''who'', JString ''0xab'')]) False
     = Inr (Schema ''struct'' (Some [(''who'', Schema ''string'' None)]),
            JObject [(''who'', JBytes [2, 97, 98])])
   \<and> parseCalldata referenceCoderDeps
      (Schema ''struct'' (Some [(''inner'', Schema ''struct'' (Some [(''who'', Schema ''string'' None)]))]))
      (JObject [(''inner'', JObject [(''who'', JString ''0xab'')])]) False
     = Inr (Schema ''struct'' (Some [(''inner'', Schema ''struct'' (Some [(''who'', Schema ''string'' None)]))]),
            JObject [(''inner'', JBytes [3, 2, 97, 98])])
   \<and> (\<exists>cfs arg' doc.
         reconstructSchema
           (Schema ''struct'' (Some [(''inner'', Schema ''struct'' (Some [(''who'', Schema ''string'' None)]))]))
           = Inr (Schema ''struct'' (Some cfs))
         \<and> fieldKinds cfs = [(''inner'', ''document'')]
         \<and> documentEncode referenceCoderDeps arg' (Schema ''struct'' (Some cfs)) = Inr doc
         \<and> doc_data doc = JObject [(''inner'', JBytes [3, 2, 97, 98])])
   \<and> argumentOfField referenceCoderDeps [JObject [(''who'', JString ''0xab'')]]
      (Schema ''struct'' (Some [(''p'', Schema ''struct'' (Some [(''who'', Schema ''string'' None)]))]), [])
      \<lparr>label = ''p'', ftype = ''Person'', slot = 0\<rparr>
     = Inr (Schema ''struct'' (Some [(''p'', Schema ''document'' None)]),
            [(''p'', JObject [(''who'', JBytes [2, 97, 98])])])
   \<and> parseArray referenceCoderDeps False
      (Schema ''struct'' (Some [(''who'', Schema ''string'' None)]))
      [JObject [(''who'', JString ''0xab'')], JObject [(''who'', JString ''cd'')]]
     = Inr (Schema ''document'' None,
            [JObject [(''who'', JBytes [2, 97, 98])], JObject [(''who'', JBytes [2, 99, 100])]])
   \<and> parseMap referenceCoderDeps (Schema ''string'' None)
      (Some (Schema ''struct'' (Some [(''who'', Schema ''string'' None)])))
      [(JString ''0xk'', JObject [(''who'', JString ''0xab'')])] []
     = Inr (Schema ''string'' None, Some (Schema ''document'' None),
            [(JString ''k'', JObject [(''who'', JBytes [2, 97, 98])])])
   \<and> parseMap referenceCoderDeps
      (Schema ''struct'' (Some [(''who'', Schema ''string'' None)]))
      (Some (Schema ''string'' None))
      [(JObject [(''who'', JString ''0xab'')], JString ''0xv'')] []
     = Inr (Schema ''document'' None, Some (Schema ''string'' None),
            [(JObject [(''who'', JBytes [2, 97, 98])], JString ''v'')])"
proof -
  let ?s = "Schema ''struct'' (Some [(''who'', Schema ''string'' None)])"
  let ?a = "JObject [(''who'', JString ''0xab'')]"
  let ?d = "JObject [(''who'', JBytes [2, 97, 98])]"
  let ?fs2 = "[(''inner'', ?s)]"
  let ?s2 = "Schema ''struct'' (Some ?fs2)"
  let ?a2 = "JObject [(''inner'', ?a)]"
  let ?d2 = "JObject [(''inner'', JBytes [3, 2, 97, 98])]"
  let ?xs = "[?a, JObject [(''who'', JString ''cd'')]]"
  let ?ys = "[?d, JObject [(''who'', JBytes [2, 99, 100])]]"
  let ?st = "(Schema ''struct'' (Some [(''p'', ?s)]), [])"
  let ?f = "\<lparr>label = ''p'', ftype = ''Person'', slot = 0\<rparr>"
  have k: "kind ?s = ''struct''" and k2: "kind ?s2 = ''struct''" by simp_all
  have flat: "flatStruct ?s" by (simp add: flatStruct_def)
  note T = parseCalldata_struct_node_rewrite[where E = referenceCoderDeps and s = ?s]
  note T2 = parseCalldata_struct_node_rewrite[where E = referenceCoderDeps and s = ?s2]
  have "map_sum id snd (parseCalldata referenceCoderDeps ?s ?a True) = Inr ?d"
    by code_simp
  then obtain s1 where h1: "parseCalldata referenceCoderDeps ?s ?a True = Inr (s1, ?d)"
    by (auto dest: map_sum_snd_Inr)
  have c1: "s1 = Schema ''document'' None"
    using T[where arg = ?a and s' = s1 and v = ?d, THEN conjunct1] k h1 by simp
  have "map_sum id snd (parseCalldata referenceCoderDeps ?s ?a False) = Inr ?d"
    by code_simp
  then obtain s2 where h2: "parseCalldata referenceCoderDeps ?s ?a False = Inr (s2, ?d)"
    by (auto dest: map_sum_snd_Inr)
  have c2: "s2 = ?s"
    using T[where arg = ?a and s'' = s2 and w = ?d, THEN conjunct2, THEN conjunct2, THEN conjunct1] flat h2 by simp
  have h3: "parseCalldata referenceCoderDeps ?s2 ?a2 False = Inr (?s2, ?d2)"
    by code_simp
  from T2[where arg = ?a2 and u = False and t = ?s2 and d = ?d2, THEN conjunct2, THEN conjunct2, THEN conjunct2, THEN conjunct1] k2 h3
  obtain fs fs' arg' copy cfs doc where
    t: "?s2 = Schema ''struct'' (Some fs')"
    and rc: "reconstructSchema (Schema ''struct'' (Some fs')) = Inr copy"
    and copy: "copy = Schema ''struct'' (Some cfs)"
    and cfs: "fieldKinds cfs = map (\<lambda>e. (fst e, retyped (snd e))) (fieldKinds fs')"
    and de: "documentEncode referenceCoderDeps arg' copy = Inr doc"
    and d: "?d2 = doc_data doc"
    by blast
  from t have fs': "fs' = ?fs2" by simp
  have c3: "\<exists>cfs arg' doc.
         reconstructSchema ?s2 = Inr (Schema ''struct'' (Some cfs))
         \<and> fieldKinds cfs = [(''inner'', ''document'')]
         \<and> documentEncode referenceCoderDeps arg' (Schema ''struct'' (Some cfs)) = Inr doc
         \<and> doc_data doc = ?d2"
    using rc copy cfs de d unfolding fs'
    by (intro exI[of _ cfs] exI[of _ arg'] exI[of _ doc]) (simp add: fieldKinds_def retyped_def)
  have "map_sum id snd (parseArray referenceCoderDeps False ?s ?xs) = Inr ?ys"
    by code_simp
  then obtain s4 where h4: "parseArray referenceCoderDeps False ?s ?xs = Inr (s4, ?ys)"
    by (auto dest: map_sum_snd_Inr)
  have c4: "s4 = Schema ''document'' None"
    using T[where xs = ?xs and typed = False and sa = s4 and ys = ?ys, THEN conjunct2, THEN conjunct2, THEN conjunct2, THEN conjunct2, THEN conjunct2, THEN conjunct2, THEN conjunct1] k h4
    by simp
  have h5: "argumentOfField referenceCoderDeps [?a] ?st ?f
     = Inr (Schema ''struct'' (Some [(''p'', Schema ''document'' None)]), [(''p'', ?d)])"
    by code_simp
  have h6: "parseMap referenceCoderDeps (Schema ''string'' None) (Some ?s)
      [(JString ''0xk'', ?a)] []
     = Inr (Schema ''string'' None, Some (Schema ''document'' None), [(JString ''k'', ?d)])"
    by code_simp
  have h7: "parseMap referenceCoderDeps ?s (Some (Schema ''string'' None))
      [(?a, JString ''0xv'')] []
     = Inr (Schema ''document'' None, Some (Schema ''string'' None), [(?d, JString ''v'')])"
    by code_simp
  from h1 c1 flat h2 c2 h3 c3 h5 h4 c4 h6 h7 show ?thesis
    by (intro conjI) simp_all
qed

text \<open>
  C7 as the spec states it fails in its last part.  The struct node
  \<open>{xs: array of {who: string}}\<close> is processed with \<open>updateType\<close> false on the value
  \<open>{xs: [{who: "0xab"}]}\<close>.  The element of \<open>xs\<close> is the last of its array, so the
  element node is processed with \<open>updateType\<close> true: the struct node comes back with
  the element node of \<open>xs\<close> rewritten to \<open>document\<close>, not as it was.
\<close>

theorem parseCalldata_struct_node_rewrite_counterexample:
  "parseCalldata referenceCoderDeps
      (Schema ''struct'' (Some [(''xs'', Schema ''array''
         (Some [(''values'', Schema ''struct'' (Some [(''who'', Schema ''string'' None)]))]))]))
      (JObject [(''xs'', JArray [JObject [(''who'', JString ''0xab'')]])]) False
     = Inr (Schema ''struct'' (Some [(''xs'', Schema ''array''
              (Some [(''values'', Schema ''document'' None)]))]),
            JObject [(''xs'', JBytes [1, 3, 2, 97, 98])])
   \<and> Schema ''struct'' (Some [(''xs'', Schema ''array''
              (Some [(''values'', Schema ''document'' None)]))])
     \<noteq> Schema ''struct'' (Some [(''xs'', Schema ''array''
         (Some [(''values'', Schema ''struct'' (Some [(''who'', Schema ''string'' None)]))]))])"
  by code_simp

section \<open>Encoding and decoding arguments\<close>

subsection \<open>The reference helpers are inverse to each other\<close>








subsection \<open>The round trip\<close>










end
